theory Spec2Isabelle
  imports Complex_Main
begin

section \<open>JavaScript values used by the client\<close>

text \<open>
  A JavaScript string is a sequence of UTF-16 code units; a code unit is modelled by its
  numeric value.  \<open>js\<close> turns an ASCII literal of the source into such a string.
\<close>

type_synonym jsstring = "nat list"

definition js :: "string \<Rightarrow> jsstring" where
  "js s = map of_char s"

text \<open>
  A JavaScript number is an IEEE double.  The numbers of the signature parameters (the
  expiry, the clock) are compared and added and never printed: there a finite double is
  the real it denotes, and the three non-finite values are kept apart because \<open><\<close> and
  \<open>>\<close> treat them specially (every comparison with \<open>NaN\<close> is false).
\<close>

datatype number = Num real | NaN | PosInfinity | NegInfinity

fun number_lt :: "number \<Rightarrow> number \<Rightarrow> bool" where
  "number_lt NaN y = False"
| "number_lt x NaN = False"
| "number_lt (Num a) (Num b) = (a < b)"
| "number_lt (Num a) PosInfinity = True"
| "number_lt (Num a) NegInfinity = False"
| "number_lt PosInfinity y = False"
| "number_lt NegInfinity (Num b) = True"
| "number_lt NegInfinity PosInfinity = True"
| "number_lt NegInfinity NegInfinity = False"

definition number_gt :: "number \<Rightarrow> number \<Rightarrow> bool" where
  "number_gt x y = number_lt y x"

text \<open>
  The operator \<open>+\<close> on numbers.  The sum of two finite doubles is the double nearest to
  the exact sum, or an infinity when that is out of range: \<open>nearest\<close> is that rounding, a
  function of the exact sum.
\<close>

fun number_add :: "(real \<Rightarrow> number) \<Rightarrow> number \<Rightarrow> number \<Rightarrow> number" where
  "number_add nearest NaN y = NaN"
| "number_add nearest x NaN = NaN"
| "number_add nearest (Num a) (Num b) = nearest (a + b)"
| "number_add nearest (Num a) y = y"
| "number_add nearest x (Num b) = x"
| "number_add nearest PosInfinity PosInfinity = PosInfinity"
| "number_add nearest NegInfinity NegInfinity = NegInfinity"
| "number_add nearest PosInfinity NegInfinity = NaN"
| "number_add nearest NegInfinity PosInfinity = NaN"

text \<open>
  The numbers inside JSON values are printed and read.  Such a number is kept in the form
  by which \<open>Number::toString\<close> identifies a double: the two zeros, \<open>NaN\<close>, the two
  infinities, and for every other double its sign and the decimal \<open>s \<times> 10\<^sup>x\<close> with the
  fewest digits \<open>s\<close> that still denotes it (\<open>0.5\<close> is \<open>Decimal False 5 (- 1)\<close>,
  \<open>2\<^sup>6\<^sup>4\<close> is \<open>Decimal False 18446744073709552 3\<close>).  In that form \<open>s\<close> is not zero and
  not divisible by 10; \<open>normal\<close> brings any other \<open>Decimal\<close> to it.  Not every \<open>Decimal\<close>
  is the form of a double (none of more than 17 digits is, nor one beyond the range of
  doubles), and which are is not decided here: where \<open>JSON.parse\<close> rounds a numeral to
  the nearest double, the parser below keeps the decimal the numeral denotes.  On a
  numeral printed from a double the two agree.
\<close>

datatype double =
    Decimal bool nat int
  | PlusZero
  | MinusZero
  | NotANumber
  | PlusInfinity
  | MinusInfinity

fun strip_zeros :: "nat \<Rightarrow> int \<Rightarrow> nat \<times> int" where
  "strip_zeros m e = (if m \<noteq> 0 \<and> m mod 10 = 0 then strip_zeros (m div 10) (e + 1) else (m, e))"

declare strip_zeros.simps [simp del]

text \<open>The number \<open>\<plusminus> m \<times> 10\<^sup>e\<close>.\<close>

definition decimal :: "bool \<Rightarrow> nat \<Rightarrow> int \<Rightarrow> double" where
  "decimal neg m e =
     (if m = 0 then (if neg then MinusZero else PlusZero)
      else case strip_zeros m e of (s, x) \<Rightarrow> Decimal neg s x)"

fun normal :: "double \<Rightarrow> double" where
  "normal (Decimal neg m e) = decimal neg m e"
| "normal d = d"

fun is_finite :: "double \<Rightarrow> bool" where
  "is_finite NotANumber = False"
| "is_finite PlusInfinity = False"
| "is_finite MinusInfinity = False"
| "is_finite d = True"

text \<open>
  The values \<open>JSON.parse\<close> builds and \<open>JSON.stringify\<close> reads: the values of response
  bodies, and the values a validation policy is made of.  An object is the list of its own
  properties in enumeration order.  A number is any number, also \<open>-0\<close>, \<open>NaN\<close> and the
  infinities, which a policy built by the caller can hold.
\<close>

datatype json =
    JNull
  | JBool bool
  | JNumber double
  | JStr jsstring
  | JArr "json list"
  | JObj "(jsstring \<times> json) list"

text \<open>
  The number with an integer value (every integer of magnitude up to \<open>2\<^sup>5\<^sup>3\<close> is a
  double).
\<close>

definition JNum :: "int \<Rightarrow> json" where
  "JNum i = JNumber (decimal (i < 0) (nat \<bar>i\<bar>) 0)"

subsection \<open>JSON.stringify\<close>

fun digits :: "nat \<Rightarrow> jsstring" where
  "digits n = (if n < 10 then [48 + n] else digits (n div 10) @ [48 + n mod 10])"

declare digits.simps [simp del]

text \<open>
  \<open>Number::toString\<close> in radix 10.  With \<open>k\<close> the number of digits of \<open>s\<close> and
  \<open>n = x + k\<close>, a number \<open>s \<times> 10\<^sup>x\<close> is printed as its digits followed by zeros, with a
  decimal point inside the digits, as \<open>0.\<close> followed by zeros and the digits, or, when \<open>n\<close>
  is above 21 or below \<open>- 5\<close>, in exponent notation.
\<close>

definition decimal_text :: "nat \<Rightarrow> int \<Rightarrow> jsstring" where
  "decimal_text s x =
     (let ds = digits s; k = int (length ds); n = x + k in
      if k \<le> n \<and> n \<le> 21 then ds @ replicate (nat (n - k)) 48
      else if 0 < n \<and> n \<le> 21 then take (nat n) ds @ 46 # drop (nat n) ds
      else if - 6 < n \<and> n \<le> 0 then 48 # 46 # replicate (nat (- n)) 48 @ ds
      else (if k = 1 then ds else hd ds # 46 # tl ds) @
           101 # (if n - 1 < 0 then 45 else 43) # digits (nat \<bar>n - 1\<bar>))"

definition Number_toString :: "double \<Rightarrow> jsstring" where
  "Number_toString d =
     (case normal d of
        Decimal neg s x \<Rightarrow> (if neg then 45 # decimal_text s x else decimal_text s x)
      | PlusZero \<Rightarrow> js ''0''
      | MinusZero \<Rightarrow> js ''0''
      | NotANumber \<Rightarrow> js ''NaN''
      | PlusInfinity \<Rightarrow> js ''Infinity''
      | MinusInfinity \<Rightarrow> js ''-Infinity'')"

definition hexdigit :: "nat \<Rightarrow> nat" where
  "hexdigit d = (if d < 10 then 48 + d else 87 + d)"

definition unicode_escape :: "nat \<Rightarrow> jsstring" where
  "unicode_escape c =
     [92, 117, hexdigit (c div 4096 mod 16), hexdigit (c div 256 mod 16),
      hexdigit (c div 16 mod 16), hexdigit (c mod 16)]"

definition is_high_surrogate :: "nat \<Rightarrow> bool" where
  "is_high_surrogate c = (55296 \<le> c \<and> c \<le> 56319)"

definition is_low_surrogate :: "nat \<Rightarrow> bool" where
  "is_low_surrogate c = (56320 \<le> c \<and> c \<le> 57343)"

text \<open>One code unit that is not part of a surrogate pair, as \<open>QuoteJSONString\<close> writes it.\<close>

definition quote_unit :: "nat \<Rightarrow> jsstring" where
  "quote_unit c =
     (if c = 8 then [92, 98]
      else if c = 9 then [92, 116]
      else if c = 10 then [92, 110]
      else if c = 12 then [92, 102]
      else if c = 13 then [92, 114]
      else if c = 34 then [92, 34]
      else if c = 92 then [92, 92]
      else if c < 32 \<or> is_high_surrogate c \<or> is_low_surrogate c then unicode_escape c
      else [c])"

fun quote_units :: "jsstring \<Rightarrow> jsstring" where
  "quote_units [] = []"
| "quote_units [c] = quote_unit c"
| "quote_units (c # d # ds) =
     (if is_high_surrogate c \<and> is_low_surrogate d then c # d # quote_units ds
      else quote_unit c @ quote_units (d # ds))"

definition QuoteJSONString :: "jsstring \<Rightarrow> jsstring" where
  "QuoteJSONString s = 34 # quote_units s @ [34]"

text \<open>\<open>JSON.stringify\<close> prints a number that is not finite as \<open>null\<close>.\<close>

fun JSON_stringify :: "json \<Rightarrow> jsstring"
  and stringify_elements :: "json list \<Rightarrow> jsstring"
  and stringify_members :: "(jsstring \<times> json) list \<Rightarrow> jsstring" where
  "JSON_stringify JNull = js ''null''"
| "JSON_stringify (JBool b) = (if b then js ''true'' else js ''false'')"
| "JSON_stringify (JNumber d) = (if is_finite d then Number_toString d else js ''null'')"
| "JSON_stringify (JStr s) = QuoteJSONString s"
| "JSON_stringify (JArr xs) = 91 # stringify_elements xs @ [93]"
| "JSON_stringify (JObj ms) = 123 # stringify_members ms @ [125]"
| "stringify_elements [] = []"
| "stringify_elements [x] = JSON_stringify x"
| "stringify_elements (x # y # ys) = JSON_stringify x @ 44 # stringify_elements (y # ys)"
| "stringify_members [] = []"
| "stringify_members [(k, v)] = QuoteJSONString k @ 58 # JSON_stringify v"
| "stringify_members ((k, v) # m # ms) =
     QuoteJSONString k @ 58 # JSON_stringify v @ 44 # stringify_members (m # ms)"

subsection \<open>btoa\<close>

datatype exception = InvalidCharacterError | TypeError

text \<open>
  An \<open>async\<close> function either returns (its promise resolves) or throws (its promise
  rejects); a synchronous call either returns or throws.
\<close>

datatype 'a completion = Throws exception | Returns 'a

definition base64_char :: "nat \<Rightarrow> nat" where
  "base64_char i =
     (if i < 26 then 65 + i
      else if i < 52 then 71 + i
      else if i < 62 then i - 4
      else if i = 62 then 43
      else 47)"

fun base64_encode :: "nat list \<Rightarrow> jsstring" where
  "base64_encode [] = []"
| "base64_encode [a] =
     [base64_char (a div 4), base64_char (a mod 4 * 16), 61, 61]"
| "base64_encode [a, b] =
     [base64_char (a div 4), base64_char (a mod 4 * 16 + b div 16),
      base64_char (b mod 16 * 4), 61]"
| "base64_encode (a # b # c # rest) =
     base64_char (a div 4) # base64_char (a mod 4 * 16 + b div 16) #
     base64_char (b mod 16 * 4 + c div 64) # base64_char (c mod 64) # base64_encode rest"

text \<open>\<open>btoa\<close> throws \<open>InvalidCharacterError\<close> on a string with a code unit above U+00FF.\<close>

definition btoa :: "jsstring \<Rightarrow> jsstring completion" where
  "btoa s = (if list_all (\<lambda>c. c \<le> 255) s then Returns (base64_encode s)
             else Throws InvalidCharacterError)"

subsection \<open>atob\<close>

text \<open>
  The base64 decoder, on the padded texts that \<open>btoa\<close> writes.  \<open>atob\<close> itself also accepts
  white space and missing padding; here such a text is refused.
\<close>

definition base64_index :: "nat \<Rightarrow> nat option" where
  "base64_index c =
     (if 65 \<le> c \<and> c \<le> 90 then Some (c - 65)
      else if 97 \<le> c \<and> c \<le> 122 then Some (c - 71)
      else if 48 \<le> c \<and> c \<le> 57 then Some (c + 4)
      else if c = 43 then Some 62
      else if c = 47 then Some 63
      else None)"

fun base64_decode :: "jsstring \<Rightarrow> nat list option" where
  "base64_decode [] = Some []"
| "base64_decode (a # b # c # d # rest) =
     (case base64_index a of
        None \<Rightarrow> None
      | Some x \<Rightarrow>
          (case base64_index b of
             None \<Rightarrow> None
           | Some y \<Rightarrow>
               if c = 61 \<and> d = 61 \<and> rest = [] then Some [x * 4 + y div 16]
               else
                 (case base64_index c of
                    None \<Rightarrow> None
                  | Some z \<Rightarrow>
                      if d = 61 \<and> rest = [] then
                        Some [x * 4 + y div 16, y mod 16 * 16 + z div 4]
                      else
                        (case base64_index d of
                           None \<Rightarrow> None
                         | Some w \<Rightarrow>
                             map_option
                               (\<lambda>bs. (x * 4 + y div 16) # (y mod 16 * 16 + z div 4) #
                                     (z mod 4 * 64 + w) # bs)
                               (base64_decode rest)))))"
| "base64_decode s = None"

definition atob :: "jsstring \<Rightarrow> jsstring completion" where
  "atob s = (case base64_decode s of
               None \<Rightarrow> Throws InvalidCharacterError
             | Some bs \<Rightarrow> Returns bs)"

subsection \<open>JSON.parse\<close>

text \<open>A parser for JSON texts; \<open>None\<close> for a text that is not JSON.\<close>

definition is_whitespace :: "nat \<Rightarrow> bool" where
  "is_whitespace c = (c = 32 \<or> c = 9 \<or> c = 10 \<or> c = 13)"

definition skip_whitespace :: "jsstring \<Rightarrow> jsstring" where
  "skip_whitespace s = dropWhile is_whitespace s"

definition is_digit :: "nat \<Rightarrow> bool" where
  "is_digit c = (48 \<le> c \<and> c \<le> 57)"

fun parse_digits :: "nat \<Rightarrow> jsstring \<Rightarrow> nat \<times> jsstring" where
  "parse_digits acc [] = (acc, [])"
| "parse_digits acc (c # cs) =
     (if is_digit c then parse_digits (acc * 10 + (c - 48)) cs else (acc, c # cs))"

text \<open>
  A number of a JSON text: an optional minus sign, an integer part without a leading
  zero, an optional fraction and an optional exponent.  The value is the decimal the
  numeral denotes, in normal form; \<open>-0\<close> reads as the negative zero.
\<close>

definition parse_fraction :: "nat \<Rightarrow> jsstring \<Rightarrow> (nat \<times> nat \<times> jsstring) option" where
  "parse_fraction i s =
     (case s of
        [] \<Rightarrow> Some (i, 0, s)
      | c # cs \<Rightarrow>
          if c \<noteq> 46 then Some (i, 0, s)
          else
            (case cs of
               [] \<Rightarrow> None
             | d # ds \<Rightarrow>
                 if \<not> is_digit d then None
                 else (case parse_digits i cs of (m, r) \<Rightarrow> Some (m, length cs - length r, r))))"

definition parse_exponent :: "jsstring \<Rightarrow> (int \<times> jsstring) option" where
  "parse_exponent s =
     (case s of
        [] \<Rightarrow> Some (0, s)
      | c # cs \<Rightarrow>
          if c \<noteq> 101 \<and> c \<noteq> 69 then Some (0, s)
          else
            (case (case cs of
                     [] \<Rightarrow> (False, cs)
                   | g # gs \<Rightarrow>
                       if g = 45 then (True, gs) else if g = 43 then (False, gs) else (False, cs)) of
               (negative, t) \<Rightarrow>
                 (case t of
                    [] \<Rightarrow> None
                  | d # ds \<Rightarrow>
                      if \<not> is_digit d then None
                      else (case parse_digits 0 t of
                              (x, r) \<Rightarrow> Some (if negative then - int x else int x, r)))))"

definition parse_unsigned :: "bool \<Rightarrow> jsstring \<Rightarrow> (double \<times> jsstring) option" where
  "parse_unsigned neg s =
     (case s of
        [] \<Rightarrow> None
      | c # cs \<Rightarrow>
          if \<not> is_digit c then None
          else if c = 48 \<and> (case cs of [] \<Rightarrow> False | d # ds \<Rightarrow> is_digit d) then None
          else
            (case parse_digits 0 s of
               (i, r1) \<Rightarrow>
                 (case parse_fraction i r1 of
                    None \<Rightarrow> None
                  | Some (m, fl, r2) \<Rightarrow>
                      (case parse_exponent r2 of
                         None \<Rightarrow> None
                       | Some (x, r3) \<Rightarrow> Some (decimal neg m (x - int fl), r3)))))"

definition parse_number :: "jsstring \<Rightarrow> (double \<times> jsstring) option" where
  "parse_number s =
     (case s of
        [] \<Rightarrow> None
      | c # cs \<Rightarrow> if c = 45 then parse_unsigned True cs else parse_unsigned False s)"

definition hexval :: "nat \<Rightarrow> nat option" where
  "hexval c =
     (if 48 \<le> c \<and> c \<le> 57 then Some (c - 48)
      else if 97 \<le> c \<and> c \<le> 102 then Some (c - 87)
      else if 65 \<le> c \<and> c \<le> 70 then Some (c - 55)
      else None)"

definition simple_escape :: "nat \<Rightarrow> nat option" where
  "simple_escape e =
     (if e = 34 then Some 34
      else if e = 92 then Some 92
      else if e = 47 then Some 47
      else if e = 98 then Some 8
      else if e = 102 then Some 12
      else if e = 110 then Some 10
      else if e = 114 then Some 13
      else if e = 116 then Some 9
      else None)"

text \<open>The characters of a string after its opening quote, up to the closing quote.\<close>

fun parse_string :: "jsstring \<Rightarrow> (jsstring \<times> jsstring) option" where
  "parse_string [] = None"
| "parse_string (c # cs) =
     (if c = 34 then Some ([], cs)
      else if c < 32 then None
      else if c = 92 then
        (case cs of
           [] \<Rightarrow> None
         | e # es \<Rightarrow>
             if e = 117 then
               (case es of
                  h1 # h2 # h3 # h4 # r \<Rightarrow>
                    (case (hexval h1, hexval h2, hexval h3, hexval h4) of
                       (Some a, Some b, Some c', Some d) \<Rightarrow>
                         map_option (\<lambda>(s, t). ((((a * 16 + b) * 16 + c') * 16 + d) # s, t))
                           (parse_string r)
                     | _ \<Rightarrow> None)
                | _ \<Rightarrow> None)
             else
               (case simple_escape e of
                  None \<Rightarrow> None
                | Some u \<Rightarrow> map_option (\<lambda>(s, t). (u # s, t)) (parse_string es)))
      else map_option (\<lambda>(s, t). (c # s, t)) (parse_string cs))"

text \<open>
  A recursive-descent parser; the first argument bounds the depth of the recursion.
  \<open>parse_elements\<close> reads the elements of a non-empty array up to the closing bracket,
  \<open>parse_members\<close> the members of a non-empty object up to the closing brace.
\<close>

fun parse_value :: "nat \<Rightarrow> jsstring \<Rightarrow> (json \<times> jsstring) option"
  and parse_elements :: "nat \<Rightarrow> jsstring \<Rightarrow> (json list \<times> jsstring) option"
  and parse_members :: "nat \<Rightarrow> jsstring \<Rightarrow> ((jsstring \<times> json) list \<times> jsstring) option" where
  "parse_value 0 s = None"
| "parse_value (Suc n) s =
     (case skip_whitespace s of
        [] \<Rightarrow> None
      | c # cs \<Rightarrow>
          if c = 110 then (if take 3 cs = js ''ull'' then Some (JNull, drop 3 cs) else None)
          else if c = 116 then (if take 3 cs = js ''rue'' then Some (JBool True, drop 3 cs) else None)
          else if c = 102 then (if take 4 cs = js ''alse'' then Some (JBool False, drop 4 cs) else None)
          else if c = 34 then map_option (\<lambda>(s, r). (JStr s, r)) (parse_string cs)
          else if c = 91 then
            (case skip_whitespace cs of
               [] \<Rightarrow> None
             | d # r \<Rightarrow>
                 if d = 93 then Some (JArr [], r)
                 else map_option (\<lambda>(xs, r'). (JArr xs, r')) (parse_elements n (d # r)))
          else if c = 123 then
            (case skip_whitespace cs of
               [] \<Rightarrow> None
             | d # r \<Rightarrow>
                 if d = 125 then Some (JObj [], r)
                 else map_option (\<lambda>(ms, r'). (JObj ms, r')) (parse_members n (d # r)))
          else map_option (\<lambda>(d, r). (JNumber d, r)) (parse_number (c # cs)))"
| "parse_elements 0 s = None"
| "parse_elements (Suc n) s =
     (case parse_value n s of
        None \<Rightarrow> None
      | Some (v, r) \<Rightarrow>
          (case skip_whitespace r of
             [] \<Rightarrow> None
           | d # r' \<Rightarrow>
               if d = 93 then Some ([v], r')
               else if d = 44 then map_option (\<lambda>(vs, t). (v # vs, t)) (parse_elements n r')
               else None))"
| "parse_members 0 s = None"
| "parse_members (Suc n) s =
     (case skip_whitespace s of
        [] \<Rightarrow> None
      | q # s1 \<Rightarrow>
          if q \<noteq> 34 then None
          else
            (case parse_string s1 of
               None \<Rightarrow> None
             | Some (k, r) \<Rightarrow>
                 (case skip_whitespace r of
                    [] \<Rightarrow> None
                  | c # r1 \<Rightarrow>
                      if c \<noteq> 58 then None
                      else
                        (case parse_value n r1 of
                           None \<Rightarrow> None
                         | Some (v, r2) \<Rightarrow>
                             (case skip_whitespace r2 of
                                [] \<Rightarrow> None
                              | d # r3 \<Rightarrow>
                                  if d = 125 then Some ([(k, v)], r3)
                                  else if d = 44 then
                                    map_option (\<lambda>(ms, t). ((k, v) # ms, t)) (parse_members n r3)
                                  else None)))))"

text \<open>\<open>JSON.parse\<close>; \<open>None\<close> when it throws a \<open>SyntaxError\<close>.\<close>

definition JSON_parse :: "jsstring \<Rightarrow> json option" where
  "JSON_parse s =
     (case parse_value (2 * length s + 2) s of
        None \<Rightarrow> None
      | Some (v, r) \<Rightarrow> if skip_whitespace r = [] then Some v else None)"

text \<open>
  Notions used to state facts about the parser: the characters a JSON text can start
  with, the text that can follow a value (nothing, a comma, a closing bracket or a
  closing brace), and the number a sequence of digits denotes after the digits \<open>acc\<close>.
\<close>

definition value_start :: "nat \<Rightarrow> bool" where
  "value_start c =
     (c = 110 \<or> c = 116 \<or> c = 102 \<or> c = 34 \<or> c = 91 \<or> c = 123 \<or> c = 45 \<or> is_digit c)"

definition delimited :: "jsstring \<Rightarrow> bool" where
  "delimited rest = (case rest of [] \<Rightarrow> True | c # cs \<Rightarrow> c = 44 \<or> c = 93 \<or> c = 125)"

definition digits_value :: "nat \<Rightarrow> jsstring \<Rightarrow> nat" where
  "digits_value acc ds = foldl (\<lambda>a c. a * 10 + (c - 48)) acc ds"

subsection \<open>What a value reads back as\<close>

text \<open>
  A value with every \<open>NaN\<close> and infinity replaced by \<open>null\<close> and every negative zero by
  the positive zero (and every number in normal form).  That \<open>JSON.parse\<close> reads this
  value from the text \<open>JSON.stringify\<close> prints is proved below, from the definitions of
  the two.
\<close>

definition number_read_back :: "double \<Rightarrow> double" where
  "number_read_back d = (case normal d of MinusZero \<Rightarrow> PlusZero | v \<Rightarrow> v)"

fun JSON_read_back :: "json \<Rightarrow> json"
  and read_back_elements :: "json list \<Rightarrow> json list"
  and read_back_members :: "(jsstring \<times> json) list \<Rightarrow> (jsstring \<times> json) list" where
  "JSON_read_back JNull = JNull"
| "JSON_read_back (JBool b) = JBool b"
| "JSON_read_back (JNumber d) = (if is_finite d then JNumber (number_read_back d) else JNull)"
| "JSON_read_back (JStr s) = JStr s"
| "JSON_read_back (JArr xs) = JArr (read_back_elements xs)"
| "JSON_read_back (JObj ms) = JObj (read_back_members ms)"
| "read_back_elements [] = []"
| "read_back_elements (x # xs) = JSON_read_back x # read_back_elements xs"
| "read_back_members [] = []"
| "read_back_members ((k, v) # ms) = (k, JSON_read_back v) # read_back_members ms"

text \<open>
  The values all of whose numbers JSON can carry: every number in the value is finite and
  not the negative zero (and is in normal form).
\<close>

fun JSON_exact :: "json \<Rightarrow> bool"
  and exact_elements :: "json list \<Rightarrow> bool"
  and exact_members :: "(jsstring \<times> json) list \<Rightarrow> bool" where
  "JSON_exact JNull = True"
| "JSON_exact (JBool b) = True"
| "JSON_exact (JNumber d) = (is_finite d \<and> d \<noteq> MinusZero \<and> normal d = d)"
| "JSON_exact (JStr s) = True"
| "JSON_exact (JArr xs) = exact_elements xs"
| "JSON_exact (JObj ms) = exact_members ms"
| "exact_elements [] = True"
| "exact_elements (x # xs) = (JSON_exact x \<and> exact_elements xs)"
| "exact_members [] = True"
| "exact_members ((k, v) # ms) = (JSON_exact v \<and> exact_members ms)"

section \<open>Commands\<close>

datatype http_method = PUT | GET | DELETE

fun method_name :: "http_method \<Rightarrow> jsstring" where
  "method_name PUT = js ''PUT''"
| "method_name GET = js ''GET''"
| "method_name DELETE = js ''DELETE''"

type_synonym Headers = "(jsstring \<times> jsstring) list"

datatype content = StringContent jsstring | ArrayBufferContent "nat list" | BlobContent "nat list" jsstring

text \<open>The private fields of the base class \<open>MedoroDataplaneCommand\<close>.\<close>

record MedoroDataplaneCommand =
  "method" :: http_method
  key :: jsstring
  headers :: Headers

text \<open>
  The base constructor: \<open>constructor({ method, headers = new Headers(), key })\<close>.  An
  omitted \<open>headers\<close> argument is \<open>None\<close>.
\<close>

definition new_MedoroDataplaneCommand ::
    "http_method \<Rightarrow> Headers option \<Rightarrow> jsstring \<Rightarrow> MedoroDataplaneCommand" where
  "new_MedoroDataplaneCommand m h k =
     \<lparr>method = m, key = k, headers = (case h of None \<Rightarrow> [] | Some hs \<Rightarrow> hs)\<rparr>"

text \<open>
  An instance of one of the three exported classes: the base fields, and for
  \<open>PutObjectCommand\<close> the private fields \<open>#policy\<close> and \<open>#content\<close>.  The policy is the
  value the caller supplies, of the type \<open>ApiPutRequestValidationPolicy\<close>: a JSON value.
\<close>

datatype command =
    Put MedoroDataplaneCommand json "content option"
  | Get MedoroDataplaneCommand
  | Delete MedoroDataplaneCommand

definition PutObjectCommand :: "jsstring \<Rightarrow> json \<Rightarrow> content option \<Rightarrow> command" where
  "PutObjectCommand k pol c = Put (new_MedoroDataplaneCommand PUT None k) pol c"

definition GetObjectCommand :: "jsstring \<Rightarrow> command" where
  "GetObjectCommand k = Get (new_MedoroDataplaneCommand GET None k)"

definition DeleteObjectCommand :: "jsstring \<Rightarrow> command" where
  "DeleteObjectCommand k = Delete (new_MedoroDataplaneCommand DELETE None k)"

fun base :: "command \<Rightarrow> MedoroDataplaneCommand" where
  "base (Put b pol c) = b"
| "base (Get b) = b"
| "base (Delete b) = b"

text \<open>\<open>policy c\<close> is \<open>Some\<close> exactly when \<open>'policy' in command\<close> holds.\<close>

fun policy :: "command \<Rightarrow> json option" where
  "policy (Put b pol c) = Some pol"
| "policy (Get b) = None"
| "policy (Delete b) = None"

fun content_of :: "command \<Rightarrow> content option" where
  "content_of (Put b pol c) = c"
| "content_of (Get b) = None"
| "content_of (Delete b) = None"

fun instanceof_PutObjectCommand :: "command \<Rightarrow> bool" where
  "instanceof_PutObjectCommand (Put b pol c) = True"
| "instanceof_PutObjectCommand (Get b) = False"
| "instanceof_PutObjectCommand (Delete b) = False"

fun instanceof_GetObjectCommand :: "command \<Rightarrow> bool" where
  "instanceof_GetObjectCommand (Put b pol c) = False"
| "instanceof_GetObjectCommand (Get b) = True"
| "instanceof_GetObjectCommand (Delete b) = False"

fun instanceof_DeleteObjectCommand :: "command \<Rightarrow> bool" where
  "instanceof_DeleteObjectCommand (Put b pol c) = False"
| "instanceof_DeleteObjectCommand (Get b) = False"
| "instanceof_DeleteObjectCommand (Delete b) = True"

text \<open>
  The base class is not exported, so a caller builds commands with the three exported
  constructors only.
\<close>

inductive constructible :: "command \<Rightarrow> bool" where
  put: "constructible (PutObjectCommand k pol c)"
| get: "constructible (GetObjectCommand k)"
| delete: "constructible (DeleteObjectCommand k)"

text \<open>The method that the constructor of a command's class passes to the base constructor.\<close>

fun method_of_class :: "command \<Rightarrow> http_method" where
  "method_of_class (Put b pol c) = PUT"
| "method_of_class (Get b) = GET"
| "method_of_class (Delete b) = DELETE"

section \<open>URLs\<close>

record URL =
  scheme :: jsstring
  authority :: jsstring
  pathname :: jsstring
  searchParams :: "(jsstring \<times> jsstring) list"
  hash :: jsstring

text \<open>
  \<open>URLSearchParams.set\<close>: the first pair named \<open>n\<close> gets the value and the other pairs
  named \<open>n\<close> are removed; with no such pair, a new one is appended.
\<close>

fun searchParams_set ::
    "(jsstring \<times> jsstring) list \<Rightarrow> jsstring \<Rightarrow> jsstring \<Rightarrow> (jsstring \<times> jsstring) list" where
  "searchParams_set [] n v = [(n, v)]"
| "searchParams_set ((k, x) # ps) n v =
     (if k = n then (n, v) # filter (\<lambda>q. fst q \<noteq> n) ps
      else (k, x) # searchParams_set ps n v)"

definition searchParams_get :: "(jsstring \<times> jsstring) list \<Rightarrow> jsstring \<Rightarrow> jsstring option" where
  "searchParams_get ps n = map_of ps n"

text \<open>
  Reading the policy back from a URL: the value of the query parameter
  \<open>x-medoro-policy\<close>, decoded from base64 and parsed as JSON; \<open>None\<close> when the parameter
  is absent or a step throws.
\<close>

definition decode_policy :: "URL \<Rightarrow> json option" where
  "decode_policy u =
     (case searchParams_get (searchParams u) (js ''x-medoro-policy'') of
        None \<Rightarrow> None
      | Some b \<Rightarrow>
          (case atob b of
             Throws x \<Rightarrow> None
           | Returns t \<Rightarrow> JSON_parse t))"

section \<open>Results and errors\<close>

record MedoroDataplaneClientError =
  type :: jsstring
  message :: jsstring
  code :: "jsstring option"
  details :: "json option"
  error_context :: "json option"

abbreviation err :: "'e \<Rightarrow> 'e + 'a" where
  "err \<equiv> Inl"

abbreviation ok :: "'a \<Rightarrow> 'e + 'a" where
  "ok \<equiv> Inr"

section \<open>The platform and the external collaborators\<close>

datatype CryptoKey = CryptoKey "nat list"

datatype component = Component jsstring | QueryParam jsstring

record additionalParams =
  keyid :: jsstring
  alg :: jsstring
  created :: number
  expires :: number

text \<open>The argument of \<open>createSignatureForRequest\<close>; \<open>request\<close> is flattened.\<close>

record signing_request =
  signatureInputs :: "component list"
  signatureLabel :: jsstring
  additional :: additionalParams
  request_url :: URL
  request_headers :: Headers
  request_method :: http_method
  sign :: "jsstring \<Rightarrow> MedoroDataplaneClientError + jsstring"

record signature_result =
  signatureInput :: jsstring
  signature :: jsstring

record fetch_request =
  fetch_url :: URL
  fetch_method :: http_method
  fetch_headers :: Headers
  fetch_body :: "content option"

text \<open>
  A \<open>Response\<close>: \<open>content_type\<close> is \<open>headers.get('content-type')\<close>, \<open>body_text\<close> what
  \<open>text()\<close> resolves to (\<open>Inr\<close>) or the exception it rejects with (\<open>Inl\<close>), \<open>body_json\<close>
  what \<open>json()\<close> resolves to (\<open>Inr\<close>) or the message it rejects with (\<open>Inl\<close>).
\<close>

record Response =
  status :: nat
  statusText :: jsstring
  content_type :: "jsstring option"
  body_text :: "exception + jsstring"
  body_json :: "jsstring + json"

text \<open>\<open>Response.ok\<close>: the status is in the range 200 to 299.\<close>

definition response_ok :: "Response \<Rightarrow> bool" where
  "response_ok r = (200 \<le> status r \<and> status r \<le> 299)"

text \<open>
  What the code calls and does not define: the URL parser (\<open>None\<close> when
  \<open>new URL\<close> throws a \<open>TypeError\<close>), the clock (\<open>Date_now n\<close> is the value of the
  \<open>n\<close>-th \<open>Date.now()\<close> of a call), the rounding of an exact sum to a double,
  \<open>crypto.subtle.sign\<close> (\<open>Inl\<close> the message of a rejection), the signing primitive of
  \<open>http-msg-sig\<close>, \<open>fetch\<close> (\<open>Inl\<close> the message of a rejection) and the message and
  issues of the \<open>ZodError\<close> for a rejected value.
\<close>

record platform =
  new_URL :: "jsstring \<Rightarrow> jsstring \<Rightarrow> URL option"
  Date_now :: "nat \<Rightarrow> int"
  nearest_double :: "real \<Rightarrow> number"
  crypto_subtle_sign :: "CryptoKey \<Rightarrow> jsstring \<Rightarrow> jsstring + jsstring"
  createSignatureForRequest :: "signing_request \<Rightarrow> MedoroDataplaneClientError + signature_result"
  fetch :: "fetch_request \<Rightarrow> jsstring + Response"
  ZodError :: "json \<Rightarrow> jsstring \<times> json"

datatype effect = Signing signing_request | Fetching fetch_request

section \<open>The client\<close>

record MedoroDataplaneClient =
  origin :: jsstring
  privateKey :: CryptoKey
  keyId :: jsstring

record signed_url =
  signedUrl :: URL
  signed_method :: http_method

subsection \<open>createSignedUrl\<close>

text \<open>
  The callback handed to the signing primitive: it signs the signature base with the
  client's private key and maps a rejection to a \<open>signature_error\<close>.
\<close>

definition sign_callback ::
    "platform \<Rightarrow> CryptoKey \<Rightarrow> jsstring \<Rightarrow> MedoroDataplaneClientError + jsstring" where
  "sign_callback p k signatureBase =
     (case crypto_subtle_sign p k signatureBase of
        Inl m \<Rightarrow> err \<lparr>type = js ''signature_error'',
                       message = js ''Failed to sign request: '' @ m,
                       code = None, details = None, error_context = None\<rparr>
      | Inr v \<Rightarrow> ok v)"

text \<open>
  The result is the list of calls made to the external collaborators, in order, and how
  the \<open>async\<close> function completes.  The second argument is \<open>expiresInSeconds\<close>, \<open>None\<close>
  when the caller leaves it out (the default 60 applies).
\<close>

definition createSignedUrl ::
    "MedoroDataplaneClient \<Rightarrow> platform \<Rightarrow> command \<Rightarrow> number option \<Rightarrow>
     effect list \<times> (MedoroDataplaneClientError + signed_url) completion" where
  "createSignedUrl this p command expiry =
     (let expiresInSeconds = (case expiry of None \<Rightarrow> Num 60 | Some e \<Rightarrow> e) in
      if number_lt expiresInSeconds (Num 10) \<or> number_gt expiresInSeconds (Num 604800) then
        ([], Returns (err \<lparr>type = js ''validation'',
                           message = js ''expiresInSeconds must be between 10 and 604800'',
                           code = None, details = None, error_context = None\<rparr>))
      else
        case new_URL p (key (base command)) (origin this) of
          None \<Rightarrow> ([], Throws TypeError)
        | Some url0 \<Rightarrow>
            let inputs0 = [Component (js ''@method''), Component (js ''@scheme''),
                           Component (js ''@authority''), Component (js ''@path'')] in
            (case (case policy command of
                     None \<Rightarrow> Returns (inputs0, url0)
                   | Some pol \<Rightarrow>
                       (case btoa (JSON_stringify pol) of
                          Throws x \<Rightarrow> Throws x
                        | Returns b \<Rightarrow>
                            Returns (inputs0 @ [QueryParam (js ''x-medoro-policy'')],
                                     url0\<lparr>searchParams :=
                                       searchParams_set (searchParams url0) (js ''x-medoro-policy'') b\<rparr>))) of
               Throws x \<Rightarrow> ([], Throws x)
             | Returns (inputs, url) \<Rightarrow>
                 let req = \<lparr>signatureInputs = inputs,
                            signatureLabel = js ''medoro'',
                            additional = \<lparr>keyid = keyId this, alg = js ''ed25519'',
                                           created = Num (of_int (Date_now p 0 div 1000)),
                                           expires = number_add (nearest_double p)
                                                       (Num (of_int (Date_now p 1 div 1000)))
                                                       expiresInSeconds\<rparr>,
                            request_url = url,
                            request_headers = headers (base command),
                            request_method = method (base command),
                            sign = sign_callback p (privateKey this)\<rparr> in
                 (case createSignatureForRequest p req of
                    Inl e \<Rightarrow> ([Signing req], Returns (err e))
                  | Inr r \<Rightarrow>
                      ([Signing req],
                       Returns (ok \<lparr>signedUrl = url\<lparr>searchParams :=
                                       searchParams_set
                                         (searchParams_set (searchParams url)
                                            (js ''x-medoro-signature-input'') (signatureInput r))
                                         (js ''x-medoro-signature'') (signature r)\<rparr>,
                                    signed_method = method (base command)\<rparr>)))))"

text \<open>
  The policy read back from the signed URL that a call of \<open>createSignedUrl\<close> returns;
  \<open>None\<close> when the call returns no signed URL.
\<close>

definition returned_policy ::
    "(MedoroDataplaneClientError + signed_url) completion \<Rightarrow> json option" where
  "returned_policy outcome =
     (case outcome of
        Returns (Inr r) \<Rightarrow> decode_policy (signedUrl r)
      | _ \<Rightarrow> None)"

subsection \<open>parseJsonResponse\<close>

text \<open>\<open>String.prototype.includes\<close>.\<close>

fun string_includes :: "jsstring \<Rightarrow> jsstring \<Rightarrow> bool" where
  "string_includes [] sub = (sub = [])"
| "string_includes (c # cs) sub = (take (length sub) (c # cs) = sub \<or> string_includes cs sub)"

text \<open>
  Truthiness of a value, as \<open>||\<close> tests it: among the numbers the two zeros and \<open>NaN\<close>
  are falsy.
\<close>

fun truthy :: "json \<Rightarrow> bool" where
  "truthy JNull = False"
| "truthy (JBool b) = b"
| "truthy (JNumber d) =
     (case normal d of PlusZero \<Rightarrow> False | MinusZero \<Rightarrow> False | NotANumber \<Rightarrow> False | _ \<Rightarrow> True)"
| "truthy (JStr s) = (s \<noteq> [])"
| "truthy (JArr xs) = True"
| "truthy (JObj ms) = True"

record api_error =
  api_code :: jsstring
  api_type :: jsstring
  api_message :: jsstring
  api_details :: "json option"

text \<open>A value that \<open>ApiResponseSchema\<close> accepts; an absent \<open>data\<close> is \<open>None\<close>.\<close>

datatype envelope = ApiSuccessResponse "json option" | ApiErrorResponse api_error

text \<open>
  \<open>ApiResponseSchema\<close>: the union discriminated by \<open>success\<close> of
  \<open>{ success: true, data: any }\<close> and
  \<open>{ success: false, error: { code, type, message: string, details?: any } }\<close>.
  \<open>None\<close> when the schema rejects the value.
\<close>

definition ApiErrorSchema_parse :: "json \<Rightarrow> api_error option" where
  "ApiErrorSchema_parse e =
     (case e of
        JObj es \<Rightarrow>
          (case map_of es (js ''code'') of
             Some (JStr c) \<Rightarrow>
               (case map_of es (js ''type'') of
                  Some (JStr t) \<Rightarrow>
                    (case map_of es (js ''message'') of
                       Some (JStr m) \<Rightarrow>
                         Some \<lparr>api_code = c, api_type = t, api_message = m,
                               api_details = map_of es (js ''details'')\<rparr>
                     | _ \<Rightarrow> None)
                | _ \<Rightarrow> None)
           | _ \<Rightarrow> None)
      | _ \<Rightarrow> None)"

definition ApiResponseSchema_parse :: "json \<Rightarrow> envelope option" where
  "ApiResponseSchema_parse rawData =
     (case rawData of
        JObj ms \<Rightarrow>
          (case map_of ms (js ''success'') of
             Some (JBool b) \<Rightarrow>
               (if b then Some (ApiSuccessResponse (map_of ms (js ''data'')))
                else (case map_of ms (js ''error'') of
                        Some e \<Rightarrow> map_option ApiErrorResponse (ApiErrorSchema_parse e)
                      | None \<Rightarrow> None))
           | _ \<Rightarrow> None)
      | _ \<Rightarrow> None)"

text \<open>\<open>response.headers.get('content-type')?.includes('application/json')\<close>, as a boolean.\<close>

definition declares_json :: "Response \<Rightarrow> bool" where
  "declares_json response =
     (case content_type response of
        None \<Rightarrow> False
      | Some ct \<Rightarrow> string_includes ct (js ''application/json''))"

text \<open>
  The classifier is an \<open>async\<close> function.  In the branch for a response that does not
  declare JSON it awaits \<open>response.text()\<close> with no handler, so a rejection there is a
  rejection of the classifier; the rejections of \<open>response.json()\<close> and of
  \<open>parseAsync\<close> are mapped to errors.
\<close>

definition parseJsonResponse ::
    "platform \<Rightarrow> Response \<Rightarrow> (MedoroDataplaneClientError + json option) completion" where
  "parseJsonResponse p response =
     (if \<not> declares_json response then
        (case body_text response of
           Inl x \<Rightarrow> Throws x
         | Inr content \<Rightarrow>
             Returns (err \<lparr>type = js ''json_parse_error'',
                           message = js ''Response is not JSON'',
                           code = None, details = None,
                           error_context = Some (JObj
                             [(js ''status'', JNum (int (status response))),
                              (js ''statusText'', JStr (statusText response)),
                              (js ''contentType'',
                                 (case content_type response of None \<Rightarrow> JNull | Some ct \<Rightarrow> JStr ct)),
                              (js ''content'', JStr content)])\<rparr>))
      else
        Returns
          (case body_json response of
             Inl m \<Rightarrow>
               err \<lparr>type = js ''json_parse_error'',
                    message = js ''Failed to parse JSON response: '' @ m,
                    code = None, details = None,
                    error_context = Some (JObj
                      [(js ''status'', JNum (int (status response))),
                       (js ''statusText'', JStr (statusText response))])\<rparr>
           | Inr rawData \<Rightarrow>
               (case ApiResponseSchema_parse rawData of
                  None \<Rightarrow>
                    err \<lparr>type = js ''validation_error'',
                         message = js ''API response validation failed: '' @ fst (ZodError p rawData),
                         code = None, details = None,
                         error_context = Some (JObj
                           [(js ''issues'', snd (ZodError p rawData)),
                            (js ''rawData'', rawData)])\<rparr>
                | Some (ApiSuccessResponse d) \<Rightarrow> ok d
                | Some (ApiErrorResponse e) \<Rightarrow>
                    err \<lparr>type = api_type e,
                         message = api_message e,
                         code = Some (api_code e),
                         details = api_details e,
                         error_context = Some
                           (case api_details e of
                              None \<Rightarrow> JStr (statusText response)
                            | Some d \<Rightarrow> if truthy d then d else JStr (statusText response))\<rparr>)))"

subsection \<open>send\<close>

datatype send_value = RawResponse Response | Data "json option"

text \<open>
  The arguments of the one \<open>fetch\<close> call: the signed URL, the command's method and headers,
  and the content of a \<open>PutObjectCommand\<close> as body.
\<close>

abbreviation fetch_request_for :: "command \<Rightarrow> signed_url \<Rightarrow> fetch_request" where
  "fetch_request_for command resultOfSignedUrl \<equiv>
     \<lparr>fetch_url = signedUrl resultOfSignedUrl,
      fetch_method = method (base command),
      fetch_headers = headers (base command),
      fetch_body = (if instanceof_PutObjectCommand command then content_of command else None)\<rparr>"

definition send ::
    "MedoroDataplaneClient \<Rightarrow> platform \<Rightarrow> command \<Rightarrow>
     effect list \<times> (MedoroDataplaneClientError + send_value) completion" where
  "send this p command =
     (case createSignedUrl this p command None of
        (effects, Throws x) \<Rightarrow> (effects, Throws x)
      | (effects, Returns (Inl e)) \<Rightarrow> (effects, Returns (err e))
      | (effects, Returns (Inr resultOfSignedUrl)) \<Rightarrow>
          let req = fetch_request_for command resultOfSignedUrl in
          (case fetch p req of
             Inl m \<Rightarrow>
               (effects @ [Fetching req],
                Returns (err \<lparr>type = js ''network_error'',
                              message = js ''Network error during '' @
                                method_name (method (base command)) @ js '': '' @ m,
                              code = None, details = None, error_context = None\<rparr>))
           | Inr response \<Rightarrow>
               (effects @ [Fetching req],
                if instanceof_GetObjectCommand command then
                  (if \<not> response_ok response then
                     (case parseJsonResponse p response of
                        Throws x \<Rightarrow> Throws x
                      | Returns (Inl e) \<Rightarrow> Returns (err e)
                      | Returns (Inr v) \<Rightarrow>
                          Returns (err \<lparr>type = js ''api_error'',
                                        message = js ''API returned a non-ok response'',
                                        code = Some (digits (status response)),
                                        details = None,
                                        error_context = Some (JStr (statusText response))\<rparr>))
                   else Returns (ok (RawResponse response)))
                else
                  (case parseJsonResponse p response of
                     Throws x \<Rightarrow> Throws x
                   | Returns (Inl e) \<Rightarrow> Returns (err e)
                   | Returns (Inr v) \<Rightarrow> Returns (ok (Data v))))))"

text \<open>
  The response of the one exchange \<open>send\<close> makes for a command, when signing succeeds and
  the transport answers; \<open>None\<close> when \<open>send\<close> ends before there is a response.
\<close>

definition exchange :: "MedoroDataplaneClient \<Rightarrow> platform \<Rightarrow> command \<Rightarrow> Response option" where
  "exchange this p command =
     (case snd (createSignedUrl this p command None) of
        Returns (Inr resultOfSignedUrl) \<Rightarrow>
          (case fetch p (fetch_request_for command resultOfSignedUrl) of
             Inl m \<Rightarrow> None
           | Inr response \<Rightarrow> Some response)
      | _ \<Rightarrow> None)"

subsection \<open>createSignedUrl over an object store\<close>

text \<open>
  The objects a call can reach: commands (with the headers, policy and content they
  hold) and \<open>URL\<close> objects.  A reference is an index into the store; \<open>new\<close> appends an
  object.  The external collaborators are functions of their arguments: they write to no
  object of the store.
\<close>

datatype object = CommandObject command | URLObject URL

type_synonym store = "object list"

definition command_at :: "store \<Rightarrow> nat \<Rightarrow> command option" where
  "command_at h c =
     (if c < length h then (case h ! c of CommandObject command \<Rightarrow> Some command | URLObject u \<Rightarrow> None)
      else None)"

definition url_at :: "store \<Rightarrow> nat \<Rightarrow> URL option" where
  "url_at h a =
     (if a < length h then (case h ! a of URLObject u \<Rightarrow> Some u | CommandObject command \<Rightarrow> None)
      else None)"

text \<open>
  \<open>createSignedUrl\<close> statement by statement: \<open>url\<close> and \<open>signedUrl\<close> are references to new
  \<open>URL\<close> objects, each \<open>searchParams.set\<close> writes to the object its reference names, and
  the command is read through its reference.  The result holds the store after the call
  and the reference of the signed URL.
\<close>

definition createSignedUrl_on ::
    "MedoroDataplaneClient \<Rightarrow> platform \<Rightarrow> store \<Rightarrow> nat \<Rightarrow> number option \<Rightarrow>
     store \<times> effect list \<times> (MedoroDataplaneClientError + nat \<times> http_method) completion" where
  "createSignedUrl_on this p h c expiry =
     (case command_at h c of
        None \<Rightarrow> (h, [], Throws TypeError)
      | Some command \<Rightarrow>
          let expiresInSeconds = (case expiry of None \<Rightarrow> Num 60 | Some e \<Rightarrow> e) in
          if number_lt expiresInSeconds (Num 10) \<or> number_gt expiresInSeconds (Num 604800) then
            (h, [], Returns (err \<lparr>type = js ''validation'',
                                  message = js ''expiresInSeconds must be between 10 and 604800'',
                                  code = None, details = None, error_context = None\<rparr>))
          else
            case new_URL p (key (base command)) (origin this) of
              None \<Rightarrow> (h, [], Throws TypeError)
            | Some u0 \<Rightarrow>
                let url = length h;
                    h1 = h @ [URLObject u0];
                    inputs0 = [Component (js ''@method''), Component (js ''@scheme''),
                               Component (js ''@authority''), Component (js ''@path'')] in
                (case (case policy command of
                         None \<Rightarrow> Returns (inputs0, u0, h1)
                       | Some pol \<Rightarrow>
                           (case btoa (JSON_stringify pol) of
                              Throws x \<Rightarrow> Throws x
                            | Returns b \<Rightarrow>
                                let u1 = u0\<lparr>searchParams :=
                                           searchParams_set (searchParams u0) (js ''x-medoro-policy'') b\<rparr>
                                in Returns (inputs0 @ [QueryParam (js ''x-medoro-policy'')],
                                            u1, h1[url := URLObject u1]))) of
                   Throws x \<Rightarrow> (h1, [], Throws x)
                 | Returns (inputs, u1, h2) \<Rightarrow>
                     let req = \<lparr>signatureInputs = inputs,
                                signatureLabel = js ''medoro'',
                                additional = \<lparr>keyid = keyId this, alg = js ''ed25519'',
                                               created = Num (of_int (Date_now p 0 div 1000)),
                                               expires = number_add (nearest_double p)
                                                           (Num (of_int (Date_now p 1 div 1000)))
                                                           expiresInSeconds\<rparr>,
                                request_url = u1,
                                request_headers = headers (base command),
                                request_method = method (base command),
                                sign = sign_callback p (privateKey this)\<rparr> in
                     (case createSignatureForRequest p req of
                        Inl e \<Rightarrow> (h2, [Signing req], Returns (err e))
                      | Inr r \<Rightarrow>
                          let signedUrl = length h2;
                              h3 = h2 @ [URLObject u1];
                              u2 = u1\<lparr>searchParams :=
                                     searchParams_set (searchParams u1)
                                       (js ''x-medoro-signature-input'') (signatureInput r)\<rparr>;
                              h4 = h3[signedUrl := URLObject u2];
                              u3 = u2\<lparr>searchParams :=
                                     searchParams_set (searchParams u2)
                                       (js ''x-medoro-signature'') (signature r)\<rparr>;
                              h5 = h4[signedUrl := URLObject u3]
                          in (h5, [Signing req], Returns (ok (signedUrl, method (base command)))))))"

text \<open>The value-level result that a store-level result stands for.\<close>

definition signed_url_of ::
    "store \<Rightarrow> (MedoroDataplaneClientError + nat \<times> http_method) completion \<Rightarrow>
     (MedoroDataplaneClientError + signed_url) completion option" where
  "signed_url_of h outcome =
     (case outcome of
        Throws x \<Rightarrow> Some (Throws x)
      | Returns (Inl e) \<Rightarrow> Some (Returns (err e))
      | Returns (Inr (a, m)) \<Rightarrow>
          map_option (\<lambda>u. Returns (ok \<lparr>signedUrl = u, signed_method = m\<rparr>)) (url_at h a))"

subsection \<open>The lifetime of a command\<close>

text \<open>
  \<open>send\<close> over the store.  Its one call that writes to the store is the call of
  \<open>createSignedUrl\<close>: \<open>fetch\<close> and the classifier read the command and the response and
  write to no object of the store.  Its effects and its result are those of \<open>send\<close>.
\<close>

definition send_on ::
    "MedoroDataplaneClient \<Rightarrow> platform \<Rightarrow> store \<Rightarrow> nat \<Rightarrow>
     store \<times> effect list \<times> (MedoroDataplaneClientError + send_value) completion" where
  "send_on this p h c =
     (case command_at h c of
        None \<Rightarrow> (h, [], Throws TypeError)
      | Some command \<Rightarrow> (fst (createSignedUrl_on this p h c None), send this p command))"

text \<open>
  What the client does to the store: a call of \<open>createSignedUrl\<close> or of \<open>send\<close>, with any
  client, platform, command reference and expiry.
\<close>

inductive client_step :: "store \<Rightarrow> store \<Rightarrow> bool" where
  sign: "createSignedUrl_on this p h c expiry = (h', effects, outcome) \<Longrightarrow> client_step h h'"
| dispatch: "send_on this p h c = (h', effects, outcome) \<Longrightarrow> client_step h h'"

text \<open>
  What the caller can do to the store.  The private fields \<open>#method\<close> and \<open>#key\<close> hold
  strings and have getters only, so the caller cannot change them.  The getters
  \<open>headers\<close>, \<open>policy\<close> and \<open>content\<close> return the objects the fields hold: the caller can
  call \<open>set\<close> and \<open>delete\<close> on the \<open>Headers\<close> object, and can write into the policy
  object and into a content buffer.  The caller can also construct further commands, and
  write to a \<open>URL\<close> object, such as the signed URL it is given.
\<close>

fun Headers_set :: "Headers \<Rightarrow> jsstring \<Rightarrow> jsstring \<Rightarrow> Headers" where
  "Headers_set [] n v = [(n, v)]"
| "Headers_set ((k, x) # hs) n v =
     (if k = n then (n, v) # filter (\<lambda>q. fst q \<noteq> n) hs
      else (k, x) # Headers_set hs n v)"

definition Headers_delete :: "Headers \<Rightarrow> jsstring \<Rightarrow> Headers" where
  "Headers_delete hs n = filter (\<lambda>q. fst q \<noteq> n) hs"

fun with_headers :: "command \<Rightarrow> Headers \<Rightarrow> command" where
  "with_headers (Put b pol c) hs = Put (b\<lparr>headers := hs\<rparr>) pol c"
| "with_headers (Get b) hs = Get (b\<lparr>headers := hs\<rparr>)"
| "with_headers (Delete b) hs = Delete (b\<lparr>headers := hs\<rparr>)"

inductive caller_step :: "store \<Rightarrow> store \<Rightarrow> bool" where
  construct: "constructible command \<Longrightarrow> caller_step h (h @ [CommandObject command])"
| headers_set:
    "command_at h c = Some command \<Longrightarrow>
     caller_step h
       (h[c := CommandObject (with_headers command (Headers_set (headers (base command)) n v))])"
| headers_delete:
    "command_at h c = Some command \<Longrightarrow>
     caller_step h
       (h[c := CommandObject (with_headers command (Headers_delete (headers (base command)) n))])"
| written:
    "command_at h c = Some (Put b pol cnt) \<Longrightarrow>
     caller_step h (h[c := CommandObject (Put b pol' cnt')])"
| url_written:
    "url_at h a = Some u \<Longrightarrow> caller_step h (h[a := URLObject u'])"

text \<open>The store during the lifetime of its commands: any sequence of such steps.\<close>

inductive evolves :: "store \<Rightarrow> store \<Rightarrow> bool" where
  start: "evolves h h"
| client: "evolves h h1 \<Longrightarrow> client_step h1 h2 \<Longrightarrow> evolves h h2"
| caller: "evolves h h1 \<Longrightarrow> caller_step h1 h2 \<Longrightarrow> evolves h h2"

section \<open>The policy schema\<close>

text \<open>
  \<open>ValidationConditionSchema\<close> and \<open>ApiPutRequestValidationPolicySchema\<close>: whether the
  schema accepts a value.  \<open>z.number()\<close> accepts the finite numbers.
\<close>

definition is_string_or_number :: "json \<Rightarrow> bool" where
  "is_string_or_number v = (case v of JStr s \<Rightarrow> True | JNumber d \<Rightarrow> is_finite d | _ \<Rightarrow> False)"

definition has_string :: "(jsstring \<times> json) list \<Rightarrow> jsstring \<Rightarrow> bool" where
  "has_string ms k = (case map_of ms k of Some (JStr s) \<Rightarrow> True | _ \<Rightarrow> False)"

definition has_number :: "(jsstring \<times> json) list \<Rightarrow> jsstring \<Rightarrow> bool" where
  "has_number ms k = (case map_of ms k of Some (JNumber d) \<Rightarrow> is_finite d | _ \<Rightarrow> False)"

definition ValidationConditionSchema_accepts :: "json \<Rightarrow> bool" where
  "ValidationConditionSchema_accepts v =
     (case v of
        JStr s \<Rightarrow> True
      | JNumber d \<Rightarrow> is_finite d
      | JObj ms \<Rightarrow>
          has_string ms (js ''startsWith'') \<or> has_string ms (js ''endsWith'') \<or>
          has_number ms (js ''lte'') \<or> has_number ms (js ''gte'') \<or>
          (case map_of ms (js ''oneOf'') of
             Some (JArr xs) \<Rightarrow> list_all is_string_or_number xs
           | _ \<Rightarrow> False) \<or>
          (case map_of ms (js ''range'') of
             Some (JArr [JNumber a, JNumber b]) \<Rightarrow> is_finite a \<and> is_finite b
           | _ \<Rightarrow> False)
      | _ \<Rightarrow> False)"

definition ApiPutRequestValidationPolicySchema_accepts :: "json \<Rightarrow> bool" where
  "ApiPutRequestValidationPolicySchema_accepts v =
     (case v of
        JObj ms \<Rightarrow>
          (case map_of ms (js ''apiPutV1'') of
             Some (JObj vs) \<Rightarrow>
               (case map_of vs (js ''conditions'') of
                  Some (JObj cs) \<Rightarrow>
                    list_all (\<lambda>c. fst c \<noteq> [] \<and> ValidationConditionSchema_accepts (snd c)) cs
                | _ \<Rightarrow> False) \<and>
               (map_of vs (js ''accessControl'') = Some (JStr (js ''public'')) \<or>
                map_of vs (js ''accessControl'') = Some (JStr (js ''private'')))
           | _ \<Rightarrow> False)
      | _ \<Rightarrow> False)"

section \<open>A sample client and platform\<close>

definition sample_client :: MedoroDataplaneClient where
  "sample_client =
     \<lparr>origin = js ''https://bucket.example'', privateKey = CryptoKey [1, 2, 3], keyId = js ''key-1''\<rparr>"

text \<open>
  A platform whose signing primitive succeeds and whose transport gives the answer
  \<open>answer\<close>.
\<close>

definition sample_platform :: "jsstring + Response \<Rightarrow> platform" where
  "sample_platform answer =
     \<lparr>new_URL = (\<lambda>k orig. Some \<lparr>scheme = js ''https'', authority = js ''bucket.example'',
                                 pathname = k, searchParams = [], hash = []\<rparr>),
      Date_now = (\<lambda>n. 1700000000000),
      nearest_double = Num,
      crypto_subtle_sign = (\<lambda>k b. Inr b),
      createSignatureForRequest =
        (\<lambda>r. ok \<lparr>signatureInput = js ''medoro=(...)'', signature = js ''medoro=:c2ln:''\<rparr>),
      fetch = (\<lambda>r. answer),
      ZodError = (\<lambda>v. (js ''invalid'', JArr []))\<rparr>"

text \<open>A policy whose only condition holds a string with the code unit U+0100.\<close>

definition wide_policy :: json where
  "wide_policy =
     JObj [(js ''apiPutV1'',
            JObj [(js ''conditions'',
                   JObj [(js ''key'', JObj [(js ''startsWith'', JStr [256])])]),
                  (js ''accessControl'', JStr (js ''public''))])]"

definition small_policy :: json where
  "small_policy =
     JObj [(js ''apiPutV1'',
            JObj [(js ''conditions'', JObj [(js ''n'', JNum 7)]),
                  (js ''accessControl'', JStr (js ''private''))])]"

text \<open>
  Policies with numbers: a fraction, a number printed in exponent notation and a number
  above \<open>2\<^sup>5\<^sup>3\<close>; the negative zero; an infinity.
\<close>

definition fraction_policy :: json where
  "fraction_policy =
     JObj [(js ''apiPutV1'',
            JObj [(js ''conditions'',
                   JObj [(js ''ratio'', JObj [(js ''lte'', JNumber (Decimal False 5 (- 1)))]),
                         (js ''size'', JObj [(js ''range'',
                            JArr [JNumber (Decimal True 125 (- 9)),
                                  JNumber (Decimal False 18446744073709552 3)])])]),
                  (js ''accessControl'', JStr (js ''private''))])]"

definition negative_zero_policy :: json where
  "negative_zero_policy =
     JObj [(js ''apiPutV1'',
            JObj [(js ''conditions'', JObj [(js ''n'', JObj [(js ''lte'', JNumber MinusZero)])]),
                  (js ''accessControl'', JStr (js ''private''))])]"

definition infinite_policy :: json where
  "infinite_policy =
     JObj [(js ''apiPutV1'',
            JObj [(js ''conditions'', JObj [(js ''n'', JObj [(js ''lte'', JNumber PlusInfinity)])]),
                  (js ''accessControl'', JStr (js ''private''))])]"

text \<open>
  Responses: error envelopes, a body that is not JSON, one whose text cannot be read, a
  body that declares JSON and is not, a JSON body that is no envelope, and success
  envelopes.
\<close>

definition forbidden_response :: Response where
  "forbidden_response =
     \<lparr>status = 403, statusText = js ''Forbidden'',
      content_type = Some (js ''application/json''), body_text = Inr [],
      body_json = Inr (JObj [(js ''success'', JBool False),
                             (js ''error'', JObj [(js ''type'', JStr (js ''api_error'')),
                                                  (js ''message'', JStr (js ''Forbidden'')),
                                                  (js ''code'', JStr (js ''NoAccess''))])])\<rparr>"

definition throttled_response :: Response where
  "throttled_response =
     \<lparr>status = 429, statusText = js ''Too Many Requests'',
      content_type = Some (js ''application/json''), body_text = Inr [],
      body_json = Inr (JObj [(js ''success'', JBool False),
                             (js ''error'', JObj [(js ''code'', JStr (js ''429'')),
                                                  (js ''type'', JStr (js ''throttled'')),
                                                  (js ''message'', JStr (js ''slow down'')),
                                                  (js ''details'', JNum 0)])])\<rparr>"

definition html_response :: Response where
  "html_response =
     \<lparr>status = 404, statusText = js ''Not Found'',
      content_type = Some (js ''text/html''), body_text = Inr (js ''<h1>Not Found</h1>''),
      body_json = Inl (js ''Unexpected token'')\<rparr>"

definition unreadable_response :: Response where
  "unreadable_response =
     \<lparr>status = 404, statusText = js ''Not Found'',
      content_type = Some (js ''text/html''), body_text = Inl TypeError,
      body_json = Inl (js ''Unexpected token'')\<rparr>"

definition unparsable_response :: Response where
  "unparsable_response =
     \<lparr>status = 502, statusText = js ''Bad Gateway'',
      content_type = Some (js ''application/json''), body_text = Inr (js ''{''),
      body_json = Inl (js ''Unexpected end of JSON input'')\<rparr>"

definition invalid_envelope_response :: Response where
  "invalid_envelope_response =
     \<lparr>status = 500, statusText = js ''Internal Server Error'',
      content_type = Some (js ''application/json''), body_text = Inr [],
      body_json = Inr (JObj [(js ''error'', JStr (js ''boom''))])\<rparr>"

definition failed_with_success_envelope :: Response where
  "failed_with_success_envelope =
     \<lparr>status = 500, statusText = js ''Internal Server Error'',
      content_type = Some (js ''application/json''), body_text = Inr [],
      body_json = Inr (JObj [(js ''success'', JBool True), (js ''data'', JNull)])\<rparr>"

definition deleted_response :: Response where
  "deleted_response =
     \<lparr>status = 200, statusText = js ''OK'',
      content_type = Some (js ''application/json''), body_text = Inr [],
      body_json = Inr (JObj [(js ''success'', JBool True),
                             (js ''data'', JObj [(js ''key'', JStr (js ''/a.txt''))])])\<rparr>"

text \<open>A store with an unrelated \<open>URL\<close> object and a command.\<close>

definition sample_store :: store where
  "sample_store =
     [URLObject \<lparr>scheme = js ''https'', authority = js ''other.example'', pathname = js ''/'',
                 searchParams = [], hash = []\<rparr>,
      CommandObject (PutObjectCommand (js ''/a.txt'') small_policy (Some (StringContent (js ''hello''))))]"

section \<open>Properties\<close>

subsection \<open>Auxiliary facts\<close>

lemma searchParams_get_set_same:
  "searchParams_get (searchParams_set ps n v) n = Some v"
  by (induction ps n v rule: searchParams_set.induct) (auto simp: searchParams_get_def)

lemma map_of_filter_other:
  "m \<noteq> n \<Longrightarrow> map_of (filter (\<lambda>q. fst q \<noteq> n) ps) m = map_of ps m"
  by (induction ps) auto

lemma searchParams_get_set_other:
  "m \<noteq> n \<Longrightarrow> searchParams_get (searchParams_set ps n v) m = searchParams_get ps m"
  by (induction ps n v rule: searchParams_set.induct)
     (auto simp: searchParams_get_def map_of_filter_other)

lemma js_neq:
  "js ''json_parse_error'' \<noteq> js ''api_error''"
  "js ''validation_error'' \<noteq> js ''api_error''"
  "js ''api_error'' \<noteq> js ''json_parse_error''"
  "js ''api_error'' \<noteq> js ''validation_error''"
  by (simp_all add: js_def)

lemmas sample_defs =
  sample_client_def sample_platform_def PutObjectCommand_def GetObjectCommand_def
  DeleteObjectCommand_def new_MedoroDataplaneCommand_def number_gt_def

lemmas classifier_defs =
  parseJsonResponse_def declares_json_def ApiResponseSchema_parse_def ApiErrorSchema_parse_def

text \<open>What \<open>send\<close> returns once there is a response.\<close>

lemma send_of_exchange:
  assumes "exchange this p command = Some response"
  shows "snd (send this p command) =
     (if instanceof_GetObjectCommand command then
        (if \<not> response_ok response then
           (case parseJsonResponse p response of
              Throws x \<Rightarrow> Throws x
            | Returns (Inl e) \<Rightarrow> Returns (err e)
            | Returns (Inr v) \<Rightarrow>
                Returns (err \<lparr>type = js ''api_error'',
                              message = js ''API returned a non-ok response'',
                              code = Some (digits (status response)),
                              details = None,
                              error_context = Some (JStr (statusText response))\<rparr>))
         else Returns (ok (RawResponse response)))
      else
        (case parseJsonResponse p response of
           Throws x \<Rightarrow> Throws x
         | Returns (Inl e) \<Rightarrow> Returns (err e)
         | Returns (Inr v) \<Rightarrow> Returns (ok (Data v))))"
proof -
  obtain effects outcome where c: "createSignedUrl this p command None = (effects, outcome)"
    by (cases "createSignedUrl this p command None")
  with assms obtain su where o: "outcome = Returns (ok su)"
    and f: "fetch p (fetch_request_for command su) = ok response"
    by (simp add: exchange_def split: completion.splits sum.splits)
  show ?thesis
    by (simp add: send_def c o f Let_def del: if_split cong: if_cong)
qed

lemma parseJsonResponse_error_envelope:
  assumes "declares_json response" "body_json response = Inr raw"
    "ApiResponseSchema_parse raw = Some (ApiErrorResponse a)"
  shows "parseJsonResponse p response =
     Returns (err \<lparr>type = api_type a, message = api_message a, code = Some (api_code a),
          details = api_details a,
          error_context = Some (case api_details a of
                                  None \<Rightarrow> JStr (statusText response)
                                | Some d \<Rightarrow> if truthy d then d else JStr (statusText response))\<rparr>)"
  using assms by (simp add: parseJsonResponse_def)

lemma parseJsonResponse_success_envelope:
  assumes "declares_json response" "body_json response = Inr raw"
    "ApiResponseSchema_parse raw = Some (ApiSuccessResponse d)"
  shows "parseJsonResponse p response = Returns (ok d)"
  using assms by (simp add: parseJsonResponse_def)

lemma parseJsonResponse_err_cases:
  assumes "parseJsonResponse p response = Returns (err e)"
  shows "type e = js ''json_parse_error'' \<or> type e = js ''validation_error'' \<or>
    (\<exists>raw a. declares_json response \<and> body_json response = Inr raw \<and>
       ApiResponseSchema_parse raw = Some (ApiErrorResponse a) \<and>
       type e = api_type a \<and> message e = api_message a \<and> code e = Some (api_code a))"
  using assms
  by (auto simp: parseJsonResponse_def split: if_splits sum.splits option.splits envelope.splits)

lemma parseJsonResponse_ok_cases:
  "(\<exists>v. parseJsonResponse p response = Returns (ok v)) =
   (\<exists>raw d. declares_json response \<and> body_json response = Inr raw \<and>
      ApiResponseSchema_parse raw = Some (ApiSuccessResponse d))"
  by (auto simp: parseJsonResponse_def split: if_splits sum.splits option.splits envelope.splits)

lemma parseJsonResponse_throws_cases:
  "(parseJsonResponse p response = Throws x) =
   (\<not> declares_json response \<and> body_text response = Inl x)"
  by (auto simp: parseJsonResponse_def split: sum.splits)

lemma parseJsonResponse_not_json:
  assumes "(\<not> declares_json response \<and> (\<exists>content. body_text response = Inr content)) \<or>
           (declares_json response \<and> (\<exists>m. body_json response = Inl m))"
  shows "\<exists>e. parseJsonResponse p response = Returns (err e) \<and>
           type e = js ''json_parse_error'' \<and> code e = None"
  using assms by (auto simp: parseJsonResponse_def)

lemma parseJsonResponse_invalid:
  assumes "declares_json response"
    and "\<exists>raw. body_json response = Inr raw \<and> ApiResponseSchema_parse raw = None"
  shows "\<exists>e. parseJsonResponse p response = Returns (err e) \<and>
           type e = js ''validation_error'' \<and> code e = None"
  using assms by (auto simp: parseJsonResponse_def)

lemma instanceof_constructed:
  "instanceof_GetObjectCommand (GetObjectCommand k)"
  "\<not> instanceof_GetObjectCommand (DeleteObjectCommand k)"
  "\<not> instanceof_GetObjectCommand (PutObjectCommand k pol c)"
  by (simp_all add: GetObjectCommand_def DeleteObjectCommand_def PutObjectCommand_def)

lemma sample_not_ok:
  "\<not> response_ok html_response"
  "\<not> response_ok failed_with_success_envelope"
  by (simp_all add: response_ok_def html_response_def failed_with_success_envelope_def)

lemma exchange_sample_get:
  "exchange sample_client (sample_platform (Inr r)) (GetObjectCommand k) = Some r"
  by (simp add: exchange_def createSignedUrl_def sample_defs)

lemma exchange_sample_delete:
  "exchange sample_client (sample_platform (Inr r)) (DeleteObjectCommand k) = Some r"
  by (simp add: exchange_def createSignedUrl_def sample_defs)

subsection \<open>The expiry check\<close>

lemma createSignedUrl_expiry_outside:
  "x < 10 \<or> 604800 < x \<Longrightarrow>
   createSignedUrl this p command (Some (Num x)) =
     ([], Returns (err \<lparr>type = js ''validation'',
                        message = js ''expiresInSeconds must be between 10 and 604800'',
                        code = None, details = None, error_context = None\<rparr>))"
  by (auto simp: createSignedUrl_def number_gt_def)

lemma createSignedUrl_expiry_infinite:
  "e = PosInfinity \<or> e = NegInfinity \<Longrightarrow>
   createSignedUrl this p command (Some e) =
     ([], Returns (err \<lparr>type = js ''validation'',
                        message = js ''expiresInSeconds must be between 10 and 604800'',
                        code = None, details = None, error_context = None\<rparr>))"
  by (auto simp: createSignedUrl_def number_gt_def)

lemma createSignedUrl_expiry_inside:
  "10 \<le> x \<Longrightarrow> x \<le> 604800 \<Longrightarrow>
   createSignedUrl this p command (Some (Num x)) \<noteq>
     ([], Returns (err \<lparr>type = js ''validation'',
                        message = js ''expiresInSeconds must be between 10 and 604800'',
                        code = None, details = None, error_context = None\<rparr>))"
  by (auto simp: createSignedUrl_def number_gt_def Let_def
      split: option.splits completion.splits sum.splits prod.splits)

lemma createSignedUrl_expiry_NaN:
  "createSignedUrl this p command (Some NaN) \<noteq> ([], Returns (err e))"
  by (auto simp: createSignedUrl_def number_gt_def Let_def
      split: option.splits completion.splits sum.splits prod.splits)

text \<open>
  C2.  The check \<open>expiresInSeconds < 10 || expiresInSeconds > 604800\<close> is false for
  \<open>NaN\<close>, a number outside the interval from 10 to 604800: no \<open>validation\<close> error is
  returned, the signing primitive is called once, and a signed URL is returned.
\<close>

theorem expiry_NaN_not_rejected:
  "snd (createSignedUrl sample_client (sample_platform (Inl []))
          (GetObjectCommand (js ''/a.txt'')) (Some NaN)) =
     Returns (ok \<lparr>signedUrl =
                    \<lparr>scheme = js ''https'', authority = js ''bucket.example'',
                     pathname = js ''/a.txt'',
                     searchParams = [(js ''x-medoro-signature-input'', js ''medoro=(...)''),
                                     (js ''x-medoro-signature'', js ''medoro=:c2ln:'')],
                     hash = []\<rparr>,
                  signed_method = GET\<rparr>) \<and>
   length (fst (createSignedUrl sample_client (sample_platform (Inl []))
                  (GetObjectCommand (js ''/a.txt'')) (Some NaN))) = 1"
  by (simp add: createSignedUrl_def sample_defs js_def)

subsection \<open>The policy in the signed surface\<close>


lemma small_policy_btoa:
  "btoa (JSON_stringify small_policy) =
     Returns (js ''eyJhcGlQdXRWMSI6eyJjb25kaXRpb25zIjp7Im4iOjd9LCJhY2Nlc3NDb250cm9sIjoicHJpdmF0ZSJ9fQ=='')"
  by (simp add: small_policy_def btoa_def js_def QuoteJSONString_def quote_unit_def
      is_high_surrogate_def is_low_surrogate_def JNum_def decimal_def strip_zeros.simps Number_toString_def decimal_text_def
      Let_def digits.simps
      base64_char_def)


subsection \<open>Exceptions\<close>

lemma wide_policy_btoa: "btoa (JSON_stringify wide_policy) = Throws InvalidCharacterError"
  by (simp add: wide_policy_def btoa_def js_def QuoteJSONString_def quote_unit_def
      is_high_surrogate_def is_low_surrogate_def)

text \<open>
  C5.  A \<open>PutObjectCommand\<close> whose policy the policy schema accepts and that holds a
  string with a code unit above U+00FF: \<open>btoa\<close> throws \<open>InvalidCharacterError\<close>, and both
  \<open>createSignedUrl\<close> and \<open>send\<close> throw instead of returning an error result.
\<close>

theorem wide_policy_throws:
  "ApiPutRequestValidationPolicySchema_accepts wide_policy \<and>
   createSignedUrl sample_client (sample_platform (Inl []))
     (PutObjectCommand (js ''/a.txt'') wide_policy None) None =
     ([], Throws InvalidCharacterError) \<and>
   send sample_client (sample_platform (Inl []))
     (PutObjectCommand (js ''/a.txt'') wide_policy None) =
     ([], Throws InvalidCharacterError)"
proof (intro conjI)
  show "ApiPutRequestValidationPolicySchema_accepts wide_policy"
    by (simp add: ApiPutRequestValidationPolicySchema_accepts_def wide_policy_def js_def
        ValidationConditionSchema_accepts_def has_string_def)
  show c: "createSignedUrl sample_client (sample_platform (Inl []))
     (PutObjectCommand (js ''/a.txt'') wide_policy None) None =
     ([], Throws InvalidCharacterError)"
    by (simp add: createSignedUrl_def sample_defs wide_policy_btoa)
  show "send sample_client (sample_platform (Inl []))
     (PutObjectCommand (js ''/a.txt'') wide_policy None) =
     ([], Throws InvalidCharacterError)"
    by (simp add: send_def c)
qed

subsection \<open>The Response Classifier\<close>

text \<open>
  C6, as stated, fails: an error envelope whose \<open>details\<close> field is \<open>0\<close> passes the
  schema, the error carries the field, and the context of the returned error is the
  status text, not the details.
\<close>

theorem error_context_counterexample:
  "declares_json throttled_response \<and>
   body_json throttled_response =
     Inr (JObj [(js ''success'', JBool False),
                (js ''error'', JObj [(js ''code'', JStr (js ''429'')),
                                     (js ''type'', JStr (js ''throttled'')),
                                     (js ''message'', JStr (js ''slow down'')),
                                     (js ''details'', JNum 0)])]) \<and>
   ApiResponseSchema_parse
     (JObj [(js ''success'', JBool False),
            (js ''error'', JObj [(js ''code'', JStr (js ''429'')),
                                 (js ''type'', JStr (js ''throttled'')),
                                 (js ''message'', JStr (js ''slow down'')),
                                 (js ''details'', JNum 0)])]) =
     Some (ApiErrorResponse \<lparr>api_code = js ''429'', api_type = js ''throttled'',
                              api_message = js ''slow down'', api_details = Some (JNum 0)\<rparr>) \<and>
   parseJsonResponse (sample_platform (Inl [])) throttled_response =
     Returns (err \<lparr>type = js ''throttled'', message = js ''slow down'', code = Some (js ''429''),
                   details = Some (JNum 0),
                   error_context = Some (JStr (js ''Too Many Requests''))\<rparr>)"
  by (simp add: classifier_defs throttled_response_def js_def JNum_def decimal_def)

text \<open>
  C6, amended.  For a response that declares JSON and whose body passes the envelope
  schema with \<open>success\<close> false, the classifier returns the embedded error (its code, type,
  message and details); the context is the details when the details are truthy, and the
  HTTP status text when the details are absent or falsy (\<open>null\<close>, \<open>false\<close>, \<open>0\<close>, the
  empty string).
\<close>

theorem error_context:
  assumes "declares_json response"
    and "body_json response = Inr raw"
    and "ApiResponseSchema_parse raw = Some (ApiErrorResponse a)"
  shows "\<exists>e. parseJsonResponse p response = Returns (err e) \<and>
           type e = api_type a \<and> message e = api_message a \<and>
           code e = Some (api_code a) \<and> details e = api_details a \<and>
           error_context e =
             Some (case api_details a of
                     None \<Rightarrow> JStr (statusText response)
                   | Some d \<Rightarrow> if truthy d then d else JStr (statusText response))"
  using assms by (simp add: parseJsonResponse_def)

theorem error_context_witness:
  "declares_json forbidden_response \<and>
   body_json forbidden_response =
     Inr (JObj [(js ''success'', JBool False),
                (js ''error'', JObj [(js ''type'', JStr (js ''api_error'')),
                                     (js ''message'', JStr (js ''Forbidden'')),
                                     (js ''code'', JStr (js ''NoAccess''))])]) \<and>
   (\<exists>e. parseJsonResponse (sample_platform (Inl [])) forbidden_response = Returns (err e) \<and>
      type e = js ''api_error'' \<and> code e = Some (js ''NoAccess'') \<and>
      error_context e = Some (JStr (js ''Forbidden'')))"
proof -
  let ?raw = "JObj [(js ''success'', JBool False),
                (js ''error'', JObj [(js ''type'', JStr (js ''api_error'')),
                                     (js ''message'', JStr (js ''Forbidden'')),
                                     (js ''code'', JStr (js ''NoAccess''))])]"
  let ?a = "\<lparr>api_code = js ''NoAccess'', api_type = js ''api_error'',
             api_message = js ''Forbidden'', api_details = None\<rparr>"
  have h1: "declares_json forbidden_response"
    by (simp add: declares_json_def forbidden_response_def js_def)
  have h2: "body_json forbidden_response = Inr ?raw"
    by (simp add: forbidden_response_def)
  have h3: "ApiResponseSchema_parse ?raw = Some (ApiErrorResponse ?a)"
    by (simp add: ApiResponseSchema_parse_def ApiErrorSchema_parse_def js_def)
  from error_context [OF h1 h2 h3, of "sample_platform (Inl [])"] h1 h2 show ?thesis
    by (auto simp: forbidden_response_def)
qed

subsection \<open>Dispatch\<close>

text \<open>
  C7.  For a store or remove command whose exchange gives a response, \<open>send\<close> ends as
  the Response Classifier ends on the response, whatever the HTTP status: with the
  classifier's error, with the classifier's data, or with its exception.  When the body
  passes the classifier as an error envelope the result is an error with that envelope's
  code, type, message and details; when it passes as a success envelope the result is the
  envelope's data.
\<close>

theorem store_remove_routing:
  assumes "\<not> instanceof_GetObjectCommand command"
    and "exchange this p command = Some response"
  shows "snd (send this p command) =
           (case parseJsonResponse p response of
              Throws x \<Rightarrow> Throws x
            | Returns (Inl e) \<Rightarrow> Returns (err e)
            | Returns (Inr v) \<Rightarrow> Returns (ok (Data v))) \<and>
         (\<forall>raw a. declares_json response \<and> body_json response = Inr raw \<and>
                  ApiResponseSchema_parse raw = Some (ApiErrorResponse a) \<longrightarrow>
            (\<exists>e. snd (send this p command) = Returns (err e) \<and>
                 type e = api_type a \<and> message e = api_message a \<and>
                 code e = Some (api_code a) \<and> details e = api_details a)) \<and>
         (\<forall>raw d. declares_json response \<and> body_json response = Inr raw \<and>
                  ApiResponseSchema_parse raw = Some (ApiSuccessResponse d) \<longrightarrow>
            snd (send this p command) = Returns (ok (Data d)))"
  using assms
  by (auto simp: send_of_exchange parseJsonResponse_error_envelope
      parseJsonResponse_success_envelope)

theorem store_remove_routing_witness:
  "\<not> instanceof_GetObjectCommand (DeleteObjectCommand (js ''/a.txt'')) \<and>
   exchange sample_client (sample_platform (Inr deleted_response))
     (DeleteObjectCommand (js ''/a.txt'')) = Some deleted_response \<and>
   snd (send sample_client (sample_platform (Inr deleted_response))
          (DeleteObjectCommand (js ''/a.txt''))) =
     Returns (ok (Data (Some (JObj [(js ''key'', JStr (js ''/a.txt''))]))))"
proof -
  have h1: "\<not> instanceof_GetObjectCommand (DeleteObjectCommand (js ''/a.txt''))"
    by (simp add: DeleteObjectCommand_def)
  have h2: "exchange sample_client (sample_platform (Inr deleted_response))
     (DeleteObjectCommand (js ''/a.txt'')) = Some deleted_response"
    by (rule exchange_sample_delete)
  have v: "parseJsonResponse (sample_platform (Inr deleted_response)) deleted_response =
     Returns (ok (Some (JObj [(js ''key'', JStr (js ''/a.txt''))])))"
    by (simp add: classifier_defs deleted_response_def js_def)
  from store_remove_routing [OF h1 h2] h1 h2 show ?thesis
    by (simp add: v)
qed

text \<open>
  C8, as stated, fails: a fetch command answered with status 500 and a body that is a
  success envelope.  The classifier does not fail and the body holds no error; \<open>send\<close>
  returns an \<open>api_error\<close> of its own making.
\<close>

theorem fetch_routing_counterexample:
  "exchange sample_client (sample_platform (Inr failed_with_success_envelope))
     (GetObjectCommand (js ''/a.txt'')) = Some failed_with_success_envelope \<and>
   \<not> response_ok failed_with_success_envelope \<and>
   parseJsonResponse (sample_platform (Inr failed_with_success_envelope))
     failed_with_success_envelope = Returns (ok (Some JNull)) \<and>
   snd (send sample_client (sample_platform (Inr failed_with_success_envelope))
          (GetObjectCommand (js ''/a.txt''))) =
     Returns (err \<lparr>type = js ''api_error'',
                   message = js ''API returned a non-ok response'',
                   code = Some (js ''500''),
                   details = None,
                   error_context = Some (JStr (js ''Internal Server Error''))\<rparr>)"
proof -
  have h2: "exchange sample_client (sample_platform (Inr failed_with_success_envelope))
     (GetObjectCommand (js ''/a.txt'')) = Some failed_with_success_envelope"
    by (rule exchange_sample_get)
  have v: "parseJsonResponse (sample_platform (Inr failed_with_success_envelope))
     failed_with_success_envelope = Returns (ok (Some JNull))"
    by (simp add: classifier_defs failed_with_success_envelope_def js_def)
  have n: "\<not> response_ok failed_with_success_envelope"
    by (simp add: response_ok_def failed_with_success_envelope_def)
  have d: "digits (status failed_with_success_envelope) = js ''500''"
    by (simp add: failed_with_success_envelope_def digits.simps js_def)
  have g: "instanceof_GetObjectCommand (GetObjectCommand (js ''/a.txt''))"
    by (simp add: GetObjectCommand_def)
  show ?thesis
    using h2 v n
    by (simp add: send_of_exchange [OF h2] g d) (simp add: failed_with_success_envelope_def)
qed

text \<open>
  C8, amended.  For a fetch command whose exchange gives a response: with a status in
  the success range the raw response is returned, whatever the body is; with any other
  status the body goes through the Response Classifier, a classifier error (the error of
  an error envelope, or a parse or validation failure) is returned as it is, and a body
  that the classifier accepts as a success envelope gives an \<open>api_error\<close> with the status
  as code.  (An exception of the classifier is an exception of \<open>send\<close>.)
\<close>

theorem fetch_routing:
  assumes "instanceof_GetObjectCommand command"
    and "exchange this p command = Some response"
  shows "(response_ok response \<longrightarrow>
            snd (send this p command) = Returns (ok (RawResponse response))) \<and>
         (\<not> response_ok response \<longrightarrow>
            (\<forall>e. parseJsonResponse p response = Returns (err e) \<longrightarrow>
                 snd (send this p command) = Returns (err e)) \<and>
            (\<forall>v. parseJsonResponse p response = Returns (ok v) \<longrightarrow>
                 snd (send this p command) =
                   Returns (err \<lparr>type = js ''api_error'',
                                 message = js ''API returned a non-ok response'',
                                 code = Some (digits (status response)),
                                 details = None,
                                 error_context = Some (JStr (statusText response))\<rparr>)) \<and>
            (\<forall>x. parseJsonResponse p response = Throws x \<longrightarrow>
                 snd (send this p command) = Throws x))"
  using assms by (auto simp: send_of_exchange)

theorem fetch_routing_witness:
  "instanceof_GetObjectCommand (GetObjectCommand (js ''/a.txt'')) \<and>
   exchange sample_client (sample_platform (Inr html_response))
     (GetObjectCommand (js ''/a.txt'')) = Some html_response \<and>
   \<not> response_ok html_response \<and>
   (\<exists>e. snd (send sample_client (sample_platform (Inr html_response))
               (GetObjectCommand (js ''/a.txt''))) = Returns (err e) \<and>
        type e = js ''json_parse_error'')"
proof -
  have h1: "instanceof_GetObjectCommand (GetObjectCommand (js ''/a.txt''))"
    by (simp add: GetObjectCommand_def)
  have h2: "exchange sample_client (sample_platform (Inr html_response))
     (GetObjectCommand (js ''/a.txt'')) = Some html_response"
    by (rule exchange_sample_get)
  have n: "\<not> response_ok html_response"
    by (simp add: response_ok_def html_response_def)
  obtain e where v: "parseJsonResponse (sample_platform (Inr html_response)) html_response =
      Returns (err e)"
    and t: "type e = js ''json_parse_error''"
    by (simp add: classifier_defs html_response_def js_def)
  from fetch_routing [OF h1 h2] n v have
    "snd (send sample_client (sample_platform (Inr html_response))
               (GetObjectCommand (js ''/a.txt''))) = Returns (err e)"
    by blast
  with h1 h2 n t show ?thesis by blast
qed

subsection \<open>The origin of an \<open>api_error\<close>\<close>

text \<open>
  C4, as stated, fails in both directions.  A fetch command answered with status 404 and
  an HTML body (a non-success status, no structured error body) gives a
  \<open>json_parse_error\<close>, not an \<open>api_error\<close>; and a remove command answered with status 403
  and an error envelope of type \<open>api_error\<close> (a structured error body) gives an error of
  type \<open>api_error\<close> whose code is the envelope's \<open>NoAccess\<close>, not the status.
\<close>

theorem api_error_counterexample:
  "exchange sample_client (sample_platform (Inr html_response))
     (GetObjectCommand (js ''/a.txt'')) = Some html_response \<and>
   \<not> response_ok html_response \<and>
   body_json html_response = Inl (js ''Unexpected token'') \<and>
   snd (send sample_client (sample_platform (Inr html_response))
          (GetObjectCommand (js ''/a.txt''))) =
     Returns (err \<lparr>type = js ''json_parse_error'', message = js ''Response is not JSON'',
                   code = None, details = None,
                   error_context = Some (JObj
                     [(js ''status'', JNum 404),
                      (js ''statusText'', JStr (js ''Not Found'')),
                      (js ''contentType'', JStr (js ''text/html'')),
                      (js ''content'', JStr (js ''<h1>Not Found</h1>''))])\<rparr>) \<and>
   js ''json_parse_error'' \<noteq> js ''api_error'' \<and>
   exchange sample_client (sample_platform (Inr forbidden_response))
     (DeleteObjectCommand (js ''/a.txt'')) = Some forbidden_response \<and>
   snd (send sample_client (sample_platform (Inr forbidden_response))
          (DeleteObjectCommand (js ''/a.txt''))) =
     Returns (err \<lparr>type = js ''api_error'', message = js ''Forbidden'',
                   code = Some (js ''NoAccess''), details = None,
                   error_context = Some (JStr (js ''Forbidden''))\<rparr>) \<and>
   js ''NoAccess'' \<noteq> digits (status forbidden_response)"
proof -
  have x1: "exchange sample_client (sample_platform (Inr html_response))
     (GetObjectCommand (js ''/a.txt'')) = Some html_response"
    by (rule exchange_sample_get)
  have x2: "exchange sample_client (sample_platform (Inr forbidden_response))
     (DeleteObjectCommand (js ''/a.txt'')) = Some forbidden_response"
    by (rule exchange_sample_delete)
  have b: "body_json html_response = Inl (js ''Unexpected token'')"
    by (simp add: html_response_def)
  have s1: "snd (send sample_client (sample_platform (Inr html_response))
          (GetObjectCommand (js ''/a.txt''))) =
     Returns (err \<lparr>type = js ''json_parse_error'', message = js ''Response is not JSON'',
                   code = None, details = None,
                   error_context = Some (JObj
                     [(js ''status'', JNum 404),
                      (js ''statusText'', JStr (js ''Not Found'')),
                      (js ''contentType'', JStr (js ''text/html'')),
                      (js ''content'', JStr (js ''<h1>Not Found</h1>''))])\<rparr>)"
    by (simp add: send_of_exchange [OF x1] instanceof_constructed sample_not_ok)
       (simp add: classifier_defs html_response_def js_def)
  have s2: "snd (send sample_client (sample_platform (Inr forbidden_response))
          (DeleteObjectCommand (js ''/a.txt''))) =
     Returns (err \<lparr>type = js ''api_error'', message = js ''Forbidden'',
                   code = Some (js ''NoAccess''), details = None,
                   error_context = Some (JStr (js ''Forbidden''))\<rparr>)"
    by (simp add: send_of_exchange [OF x2] instanceof_constructed)
       (simp add: classifier_defs forbidden_response_def js_def)
  have d: "js ''NoAccess'' \<noteq> digits (status forbidden_response)"
    by (simp add: forbidden_response_def digits.simps js_def)
  from x1 sample_not_ok(1) b s1 js_neq(1) x2 s2 d show ?thesis
    by (intro conjI)
qed

text \<open>
  C4, amended.  Once there is a response, \<open>send\<close> makes an \<open>api_error\<close> of its own for a
  fetch command whose response has a status outside the success range and a body that
  the Response Classifier accepts as a success envelope (the response declares JSON,
  \<open>json()\<close> resolves, and the envelope schema accepts the value with \<open>success\<close> true);
  that error carries the decimal HTTP status as its code and the status text as its
  context.  When the classifier is consulted (for a store or remove command always, for a
  fetch command when the status is outside the success range) and the response does not
  declare JSON, or declares it and \<open>json()\<close> rejects, \<open>send\<close> returns a
  \<open>json_parse_error\<close>; when the value fails the envelope schema, it returns a
  \<open>validation_error\<close>; neither has a code.  (When the response does not declare JSON and
  its text cannot be read, \<open>send\<close> throws.)  Every other error of type \<open>api_error\<close> that
  \<open>send\<close> returns is the error of an error envelope of the server whose own type is
  \<open>api_error\<close>, with the envelope's code.
\<close>

theorem api_error_origin:
  assumes "exchange this p command = Some response"
  shows "(instanceof_GetObjectCommand command \<and> \<not> response_ok response \<and>
          (\<exists>v. parseJsonResponse p response = Returns (ok v)) \<longrightarrow>
            snd (send this p command) =
              Returns (err \<lparr>type = js ''api_error'',
                            message = js ''API returned a non-ok response'',
                            code = Some (digits (status response)),
                            details = None,
                            error_context = Some (JStr (statusText response))\<rparr>)) \<and>
         ((\<exists>v. parseJsonResponse p response = Returns (ok v)) =
          (\<exists>raw d. declares_json response \<and> body_json response = Inr raw \<and>
             ApiResponseSchema_parse raw = Some (ApiSuccessResponse d))) \<and>
         ((instanceof_GetObjectCommand command \<longrightarrow> \<not> response_ok response) \<and>
          ((\<not> declares_json response \<and> (\<exists>content. body_text response = Inr content)) \<or>
           (declares_json response \<and> (\<exists>m. body_json response = Inl m))) \<longrightarrow>
            (\<exists>e. snd (send this p command) = Returns (err e) \<and>
                 type e = js ''json_parse_error'' \<and> code e = None)) \<and>
         ((instanceof_GetObjectCommand command \<longrightarrow> \<not> response_ok response) \<and>
          declares_json response \<and>
          (\<exists>raw. body_json response = Inr raw \<and> ApiResponseSchema_parse raw = None) \<longrightarrow>
            (\<exists>e. snd (send this p command) = Returns (err e) \<and>
                 type e = js ''validation_error'' \<and> code e = None)) \<and>
         (\<forall>x. (instanceof_GetObjectCommand command \<longrightarrow> \<not> response_ok response) \<and>
              \<not> declares_json response \<and> body_text response = Inl x \<longrightarrow>
            snd (send this p command) = Throws x) \<and>
         (\<forall>e. snd (send this p command) = Returns (err e) \<and> type e = js ''api_error'' \<longrightarrow>
            (instanceof_GetObjectCommand command \<and> \<not> response_ok response \<and>
             (\<exists>v. parseJsonResponse p response = Returns (ok v)) \<and>
             code e = Some (digits (status response))) \<or>
            (\<exists>raw a. declares_json response \<and> body_json response = Inr raw \<and>
               ApiResponseSchema_parse raw = Some (ApiErrorResponse a) \<and>
               api_type a = js ''api_error'' \<and> code e = Some (api_code a)))"
proof (intro conjI allI impI)
  assume "instanceof_GetObjectCommand command \<and> \<not> response_ok response \<and>
          (\<exists>v. parseJsonResponse p response = Returns (ok v))"
  then show "snd (send this p command) =
              Returns (err \<lparr>type = js ''api_error'',
                            message = js ''API returned a non-ok response'',
                            code = Some (digits (status response)),
                            details = None,
                            error_context = Some (JStr (statusText response))\<rparr>)"
    using assms by (auto simp: send_of_exchange)
next
  show "(\<exists>v. parseJsonResponse p response = Returns (ok v)) =
        (\<exists>raw d. declares_json response \<and> body_json response = Inr raw \<and>
           ApiResponseSchema_parse raw = Some (ApiSuccessResponse d))"
    by (rule parseJsonResponse_ok_cases)
next
  assume h: "(instanceof_GetObjectCommand command \<longrightarrow> \<not> response_ok response) \<and>
          ((\<not> declares_json response \<and> (\<exists>content. body_text response = Inr content)) \<or>
           (declares_json response \<and> (\<exists>m. body_json response = Inl m)))"
  then obtain e where "parseJsonResponse p response = Returns (err e)"
    "type e = js ''json_parse_error''" "code e = None"
    using parseJsonResponse_not_json by blast
  with h show "\<exists>e. snd (send this p command) = Returns (err e) \<and>
                 type e = js ''json_parse_error'' \<and> code e = None"
    by (simp add: send_of_exchange [OF assms])
next
  assume h: "(instanceof_GetObjectCommand command \<longrightarrow> \<not> response_ok response) \<and>
          declares_json response \<and>
          (\<exists>raw. body_json response = Inr raw \<and> ApiResponseSchema_parse raw = None)"
  then obtain e where "parseJsonResponse p response = Returns (err e)"
    "type e = js ''validation_error''" "code e = None"
    using parseJsonResponse_invalid by blast
  with h show "\<exists>e. snd (send this p command) = Returns (err e) \<and>
                 type e = js ''validation_error'' \<and> code e = None"
    by (simp add: send_of_exchange [OF assms])
next
  fix x
  assume h: "(instanceof_GetObjectCommand command \<longrightarrow> \<not> response_ok response) \<and>
              \<not> declares_json response \<and> body_text response = Inl x"
  then have "parseJsonResponse p response = Throws x"
    by (simp add: parseJsonResponse_throws_cases)
  with h show "snd (send this p command) = Throws x"
    by (simp add: send_of_exchange [OF assms])
next
  fix e
  assume h: "snd (send this p command) = Returns (err e) \<and> type e = js ''api_error''"
  show "(instanceof_GetObjectCommand command \<and> \<not> response_ok response \<and>
             (\<exists>v. parseJsonResponse p response = Returns (ok v)) \<and>
             code e = Some (digits (status response))) \<or>
            (\<exists>raw a. declares_json response \<and> body_json response = Inr raw \<and>
               ApiResponseSchema_parse raw = Some (ApiErrorResponse a) \<and>
               api_type a = js ''api_error'' \<and> code e = Some (api_code a))"
  proof (cases "parseJsonResponse p response")
    case (Throws x)
    with h assms show ?thesis
      by (auto simp: send_of_exchange split: if_splits)
  next
    case (Returns res)
    show ?thesis
    proof (cases res)
      case (Inl e')
      with Returns h assms have "e' = e"
        by (auto simp: send_of_exchange split: if_splits)
      with Inl Returns have "parseJsonResponse p response = Returns (err e)" by simp
      from parseJsonResponse_err_cases [OF this] h show ?thesis
        by (auto simp: js_neq)
    next
      case (Inr v)
      with Returns h assms show ?thesis
        by (auto simp: send_of_exchange split: if_splits)
    qed
  qed
qed

theorem api_error_origin_witness:
  "exchange sample_client (sample_platform (Inr failed_with_success_envelope))
     (GetObjectCommand (js ''/a.txt'')) = Some failed_with_success_envelope \<and>
   instanceof_GetObjectCommand (GetObjectCommand (js ''/a.txt'')) \<and>
   \<not> response_ok failed_with_success_envelope \<and>
   parseJsonResponse (sample_platform (Inr failed_with_success_envelope))
     failed_with_success_envelope = Returns (ok (Some JNull)) \<and>
   snd (send sample_client (sample_platform (Inr failed_with_success_envelope))
          (GetObjectCommand (js ''/a.txt''))) =
     Returns (err \<lparr>type = js ''api_error'',
                   message = js ''API returned a non-ok response'',
                   code = Some (digits 500),
                   details = None,
                   error_context = Some (JStr (js ''Internal Server Error''))\<rparr>) \<and>
   exchange sample_client (sample_platform (Inr html_response))
     (GetObjectCommand (js ''/a.txt'')) = Some html_response \<and>
   \<not> response_ok html_response \<and>
   \<not> declares_json html_response \<and>
   body_text html_response = Inr (js ''<h1>Not Found</h1>'') \<and>
   (\<exists>e. snd (send sample_client (sample_platform (Inr html_response))
               (GetObjectCommand (js ''/a.txt''))) = Returns (err e) \<and>
        type e = js ''json_parse_error'') \<and>
   exchange sample_client (sample_platform (Inr unparsable_response))
     (GetObjectCommand (js ''/a.txt'')) = Some unparsable_response \<and>
   \<not> response_ok unparsable_response \<and>
   declares_json unparsable_response \<and>
   body_json unparsable_response = Inl (js ''Unexpected end of JSON input'') \<and>
   (\<exists>e. snd (send sample_client (sample_platform (Inr unparsable_response))
               (GetObjectCommand (js ''/a.txt''))) = Returns (err e) \<and>
        type e = js ''json_parse_error'') \<and>
   exchange sample_client (sample_platform (Inr invalid_envelope_response))
     (DeleteObjectCommand (js ''/a.txt'')) = Some invalid_envelope_response \<and>
   \<not> instanceof_GetObjectCommand (DeleteObjectCommand (js ''/a.txt'')) \<and>
   declares_json invalid_envelope_response \<and>
   body_json invalid_envelope_response = Inr (JObj [(js ''error'', JStr (js ''boom''))]) \<and>
   ApiResponseSchema_parse (JObj [(js ''error'', JStr (js ''boom''))]) = None \<and>
   (\<exists>e. snd (send sample_client (sample_platform (Inr invalid_envelope_response))
               (DeleteObjectCommand (js ''/a.txt''))) = Returns (err e) \<and>
        type e = js ''validation_error'') \<and>
   exchange sample_client (sample_platform (Inr unreadable_response))
     (GetObjectCommand (js ''/a.txt'')) = Some unreadable_response \<and>
   \<not> response_ok unreadable_response \<and>
   \<not> declares_json unreadable_response \<and>
   body_text unreadable_response = Inl TypeError \<and>
   snd (send sample_client (sample_platform (Inr unreadable_response))
          (GetObjectCommand (js ''/a.txt''))) = Throws TypeError"
proof -
  have g: "instanceof_GetObjectCommand (GetObjectCommand (js ''/a.txt''))"
    by (simp add: GetObjectCommand_def)
  have h: "exchange sample_client (sample_platform (Inr failed_with_success_envelope))
     (GetObjectCommand (js ''/a.txt'')) = Some failed_with_success_envelope"
    by (rule exchange_sample_get)
  have n: "\<not> response_ok failed_with_success_envelope"
    by (simp add: response_ok_def failed_with_success_envelope_def)
  have v: "parseJsonResponse (sample_platform (Inr failed_with_success_envelope))
     failed_with_success_envelope = Returns (ok (Some JNull))"
    by (simp add: classifier_defs failed_with_success_envelope_def js_def)
  have s: "status failed_with_success_envelope = 500"
    "statusText failed_with_success_envelope = js ''Internal Server Error''"
    by (simp_all add: failed_with_success_envelope_def)
  from api_error_origin [OF h] g n v have
    "snd (send sample_client (sample_platform (Inr failed_with_success_envelope))
          (GetObjectCommand (js ''/a.txt''))) =
     Returns (err \<lparr>type = js ''api_error'',
                   message = js ''API returned a non-ok response'',
                   code = Some (digits (status failed_with_success_envelope)),
                   details = None,
                   error_context = Some (JStr (statusText failed_with_success_envelope))\<rparr>)"
    by blast
  then have a: "snd (send sample_client (sample_platform (Inr failed_with_success_envelope))
          (GetObjectCommand (js ''/a.txt''))) =
     Returns (err \<lparr>type = js ''api_error'',
                   message = js ''API returned a non-ok response'',
                   code = Some (digits 500),
                   details = None,
                   error_context = Some (JStr (js ''Internal Server Error''))\<rparr>)"
    by (simp add: s)
  have hh: "exchange sample_client (sample_platform (Inr html_response))
     (GetObjectCommand (js ''/a.txt'')) = Some html_response"
    by (rule exchange_sample_get)
  have nh: "\<not> response_ok html_response"
    by (simp add: response_ok_def html_response_def)
  have dh: "\<not> declares_json html_response"
    by (simp add: declares_json_def html_response_def js_def)
  have bh: "body_text html_response = Inr (js ''<h1>Not Found</h1>'')"
    by (simp add: html_response_def)
  from api_error_origin [OF hh] nh dh bh have
    t: "\<exists>e. snd (send sample_client (sample_platform (Inr html_response))
               (GetObjectCommand (js ''/a.txt''))) = Returns (err e) \<and>
        type e = js ''json_parse_error''"
    by blast
  have hu: "exchange sample_client (sample_platform (Inr unparsable_response))
     (GetObjectCommand (js ''/a.txt'')) = Some unparsable_response"
    by (rule exchange_sample_get)
  have nu: "\<not> response_ok unparsable_response"
    by (simp add: response_ok_def unparsable_response_def)
  have du: "declares_json unparsable_response"
    by (simp add: declares_json_def unparsable_response_def js_def)
  have bu: "body_json unparsable_response = Inl (js ''Unexpected end of JSON input'')"
    by (simp add: unparsable_response_def)
  from api_error_origin [OF hu] nu du bu have
    u: "\<exists>e. snd (send sample_client (sample_platform (Inr unparsable_response))
               (GetObjectCommand (js ''/a.txt''))) = Returns (err e) \<and>
        type e = js ''json_parse_error''"
    by blast
  have hi: "exchange sample_client (sample_platform (Inr invalid_envelope_response))
     (DeleteObjectCommand (js ''/a.txt'')) = Some invalid_envelope_response"
    by (rule exchange_sample_delete)
  have gi: "\<not> instanceof_GetObjectCommand (DeleteObjectCommand (js ''/a.txt''))"
    by (simp add: DeleteObjectCommand_def)
  have di: "declares_json invalid_envelope_response"
    by (simp add: declares_json_def invalid_envelope_response_def js_def)
  have bi: "body_json invalid_envelope_response = Inr (JObj [(js ''error'', JStr (js ''boom''))])"
    by (simp add: invalid_envelope_response_def)
  have si: "ApiResponseSchema_parse (JObj [(js ''error'', JStr (js ''boom''))]) = None"
    by (simp add: ApiResponseSchema_parse_def js_def)
  from api_error_origin [OF hi] gi di bi si have
    i: "\<exists>e. snd (send sample_client (sample_platform (Inr invalid_envelope_response))
               (DeleteObjectCommand (js ''/a.txt''))) = Returns (err e) \<and>
        type e = js ''validation_error''"
    by blast
  have hr: "exchange sample_client (sample_platform (Inr unreadable_response))
     (GetObjectCommand (js ''/a.txt'')) = Some unreadable_response"
    by (rule exchange_sample_get)
  have nr: "\<not> response_ok unreadable_response"
    by (simp add: response_ok_def unreadable_response_def)
  have dr: "\<not> declares_json unreadable_response"
    by (simp add: declares_json_def unreadable_response_def js_def)
  have br: "body_text unreadable_response = Inl TypeError"
    by (simp add: unreadable_response_def)
  from api_error_origin [OF hr] nr dr br have
    r: "snd (send sample_client (sample_platform (Inr unreadable_response))
          (GetObjectCommand (js ''/a.txt''))) = Throws TypeError"
    by blast
  from h g n v a hh nh dh bh t hu nu du bu u hi gi di bi si i hr nr dr br r show ?thesis
    by (intro conjI)
qed

subsection \<open>Base64 and JSON round trips\<close>

lemma base64_index_char: "i < 64 \<Longrightarrow> base64_index (base64_char i) = Some i"
  by (auto simp: base64_index_def base64_char_def)

lemma base64_char_not_pad: "i < 64 \<Longrightarrow> base64_char i \<noteq> 61"
  by (auto simp: base64_char_def)

lemma sextet_1_bound: "(a::nat) \<le> 255 \<Longrightarrow> a div 4 < 64"
  by simp

lemma sextet_4_bound: "(c::nat) mod 64 < 64"
  by simp

lemma sextet_2_padded_bound: "(a::nat) mod 4 * 16 < 64" 
proof -
  have "a mod 4 < 4" by simp
  then show ?thesis by linarith
qed

lemma sextet_2_bound: "(b::nat) \<le> 255 \<Longrightarrow> a mod 4 * 16 + b div 16 < 64"
proof -
  assume "b \<le> 255"
  then have "b div 16 < 16" by simp
  moreover have "a mod 4 < 4" by simp
  ultimately show ?thesis by linarith
qed

lemma sextet_3_padded_bound: "(b::nat) mod 16 * 4 < 64"
proof -
  have "b mod 16 < 16" by simp
  then show ?thesis by linarith
qed

lemma sextet_3_bound: "(c::nat) \<le> 255 \<Longrightarrow> b mod 16 * 4 + c div 64 < 64"
proof -
  assume "c \<le> 255"
  then have "c div 64 < 4" by simp
  moreover have "b mod 16 < 16" by simp
  ultimately show ?thesis by linarith
qed

lemma octet_1: "(b::nat) \<le> 255 \<Longrightarrow> a div 4 * 4 + (a mod 4 * 16 + b div 16) div 16 = a"
proof -
  assume "b \<le> 255"
  then have "b div 16 < 16" by simp
  then have "(a mod 4 * 16 + b div 16) div 16 = a mod 4" by simp
  then show ?thesis by simp
qed

lemma octet_1_padded: "(a::nat) div 4 * 4 + (a mod 4 * 16) div 16 = a"
  by simp

lemma octet_2: "(b::nat) \<le> 255 \<Longrightarrow> c \<le> 255 \<Longrightarrow>
  (a mod 4 * 16 + b div 16) mod 16 * 16 + (b mod 16 * 4 + c div 64) div 4 = b"
proof -
  assume "b \<le> 255" "c \<le> 255"
  then have h: "b div 16 < 16" "c div 64 < 4" by simp_all
  have "(a mod 4 * 16 + b div 16) mod 16 = b div 16" using h by simp
  moreover have "(b mod 16 * 4 + c div 64) div 4 = b mod 16" using h by simp
  ultimately show ?thesis by simp
qed

lemma octet_2_padded: "(b::nat) \<le> 255 \<Longrightarrow>
  (a mod 4 * 16 + b div 16) mod 16 * 16 + (b mod 16 * 4) div 4 = b"
proof -
  assume "b \<le> 255"
  then have h: "b div 16 < 16" by simp
  have "(a mod 4 * 16 + b div 16) mod 16 = b div 16" using h by simp
  then show ?thesis by simp
qed

lemma octet_3: "(c::nat) \<le> 255 \<Longrightarrow> (b mod 16 * 4 + c div 64) mod 4 * 64 + c mod 64 = c"
proof -
  assume "c \<le> 255"
  then have h: "c div 64 < 4" by simp
  have "(b mod 16 * 4 + c div 64) mod 4 = c div 64" using h by simp
  then show ?thesis by simp
qed

lemma hex_digits_value: "(c::nat) < 65536 \<Longrightarrow>
  ((c div 4096 mod 16 * 16 + c div 256 mod 16) * 16 + c div 16 mod 16) * 16 + c mod 16 = c"
proof -
  assume "c < 65536"
  then have a: "c div 4096 mod 16 = c div 4096" by simp
  have b1: "c div 4096 = c div 256 div 16"
    using div_mult2_eq [of c 256 16] by simp
  have d1: "c div 256 = c div 16 div 16"
    using div_mult2_eq [of c 16 16] by simp
  have b: "c div 4096 * 16 + c div 256 mod 16 = c div 256"
    by (simp add: b1)
  have d: "c div 256 * 16 + c div 16 mod 16 = c div 16"
    by (simp add: d1)
  show ?thesis by (simp add: a b d)
qed

lemma base64_decode_quad:
  assumes "x < 64" "y < 64" "z < 64" "w < 64"
  shows "base64_decode (base64_char x # base64_char y # base64_char z # base64_char w # rest) =
         map_option (\<lambda>bs. (x * 4 + y div 16) # (y mod 16 * 16 + z div 4) # (z mod 4 * 64 + w) # bs)
           (base64_decode rest)"
  using assms by (simp add: base64_index_char base64_char_not_pad)

lemma base64_decode_pad1:
  assumes "x < 64" "y < 64" "z < 64"
  shows "base64_decode [base64_char x, base64_char y, base64_char z, 61] =
         Some [x * 4 + y div 16, y mod 16 * 16 + z div 4]"
  using assms by (simp add: base64_index_char base64_char_not_pad)

lemma base64_decode_pad2:
  assumes "x < 64" "y < 64"
  shows "base64_decode [base64_char x, base64_char y, 61, 61] = Some [x * 4 + y div 16]"
  using assms by (simp add: base64_index_char base64_char_not_pad)

lemma base64_decode_encode:
  "list_all (\<lambda>c. c \<le> 255) bs \<Longrightarrow> base64_decode (base64_encode bs) = Some bs"
proof (induction bs rule: base64_encode.induct)
  case 1
  then show ?case by simp
next
  case (2 a)
  then have a: "a \<le> 255" by simp
  define x where "x = a div 4"
  define y where "y = a mod 4 * 16"
  have b: "x < 64" "y < 64"
    using a by (simp_all only: x_def y_def sextet_1_bound sextet_2_padded_bound)
  have j: "x * 4 + y div 16 = a"
    by (simp only: x_def y_def octet_1_padded)
  have "base64_encode [a] = [base64_char x, base64_char y, 61, 61]"
    by (simp add: x_def y_def)
  then show ?case
    by (simp only: base64_decode_pad2 [OF b] j)
next
  case (3 a b)
  then have a: "a \<le> 255" "b \<le> 255" by simp_all
  define x where "x = a div 4"
  define y where "y = a mod 4 * 16 + b div 16"
  define z where "z = b mod 16 * 4"
  have b: "x < 64" "y < 64" "z < 64"
    using a by (simp_all only: x_def y_def z_def sextet_1_bound sextet_2_bound sextet_3_padded_bound)
  have j: "x * 4 + y div 16 = a" "y mod 16 * 16 + z div 4 = b"
    using a by (simp_all only: x_def y_def z_def octet_1 octet_2_padded)
  have "base64_encode [a, b] = [base64_char x, base64_char y, base64_char z, 61]"
    by (simp add: x_def y_def z_def)
  then show ?case
    by (simp only: base64_decode_pad1 [OF b] j)
next
  case (4 a b c rest)
  then have a: "a \<le> 255" "b \<le> 255" "c \<le> 255" and r: "list_all (\<lambda>c. c \<le> 255) rest"
    by simp_all
  define x where "x = a div 4"
  define y where "y = a mod 4 * 16 + b div 16"
  define z where "z = b mod 16 * 4 + c div 64"
  define w where "w = c mod 64"
  have b: "x < 64" "y < 64" "z < 64" "w < 64"
    using a by (simp_all only: x_def y_def z_def w_def sextet_1_bound sextet_2_bound sextet_3_bound sextet_4_bound)
  have j: "x * 4 + y div 16 = a" "y mod 16 * 16 + z div 4 = b" "z mod 4 * 64 + w = c"
    using a by (simp_all only: x_def y_def z_def w_def octet_1 octet_2 octet_3)
  have "base64_encode (a # b # c # rest) =
        base64_char x # base64_char y # base64_char z # base64_char w # base64_encode rest"
    by (simp add: x_def y_def z_def w_def)
  then show ?case
    using "4.IH" [OF r] by (simp only: base64_decode_quad [OF b] j) simp
qed

lemma atob_btoa: "btoa s = Returns b \<Longrightarrow> atob b = Returns s"
  by (auto simp: btoa_def atob_def base64_decode_encode split: if_splits)

lemma digits_nonempty: "digits n \<noteq> []"
  by (induction n rule: digits.induct) (subst digits.simps, simp)

lemma digits_head: "\<exists>d ds. digits n = d # ds \<and> is_digit d \<and> (d = 48 \<longrightarrow> n = 0 \<and> ds = [])"
proof (induction n rule: digits.induct)
  case (1 n)
  show ?case
  proof (cases "n < 10")
    case True
    then show ?thesis by (subst digits.simps) (simp add: is_digit_def)
  next
    case False
    with 1 obtain d ds where h: "digits (n div 10) = d # ds" "is_digit d"
      "d = 48 \<longrightarrow> n div 10 = 0 \<and> ds = []"
      by blast
    from False have "n div 10 \<noteq> 0" by simp
    with h have "d \<noteq> 48" by blast
    with h False show ?thesis by (subst digits.simps) simp
  qed
qed

lemma digits_all: "list_all is_digit (digits n)"
proof (induction n rule: digits.induct)
  case (1 n)
  show ?case
  proof (cases "n < 10")
    case True
    then show ?thesis by (subst digits.simps) (simp add: is_digit_def)
  next
    case False
    have "n mod 10 < 10" by simp
    then have "is_digit (48 + n mod 10)"
      unfolding is_digit_def by linarith
    with 1 False show ?thesis by (subst digits.simps) simp
  qed
qed

lemma digits_value_append:
  "digits_value acc (xs @ ys) = digits_value (digits_value acc xs) ys"
  by (simp add: digits_value_def)

lemma digits_value_digits: "digits_value acc (digits n) = acc * 10 ^ length (digits n) + n"
proof (induction n arbitrary: acc rule: digits.induct)
  case (1 n)
  show ?case
  proof (cases "n < 10")
    case True
    then have "digits n = [48 + n]"
      by (subst digits.simps) simp
    then show ?thesis by (simp add: digits_value_def)
  next
    case False
    then have dn: "digits n = digits (n div 10) @ [48 + n mod 10]"
      by (subst digits.simps) simp
    have "digits_value acc (digits n) =
          digits_value (digits_value acc (digits (n div 10))) [48 + n mod 10]"
      by (simp only: dn digits_value_append)
    also have "\<dots> = (acc * 10 ^ length (digits (n div 10)) + n div 10) * 10 + n mod 10"
      using "1.IH" [OF False] by (simp add: digits_value_def)
    also have "\<dots> = acc * 10 ^ length (digits n) + n"
      by (simp add: dn algebra_simps)
    finally show ?thesis .
  qed
qed

lemma digits_value_zeros: "digits_value acc (replicate j 48) = acc * 10 ^ j"
  by (induction j arbitrary: acc) (simp_all add: digits_value_def)

lemma zeros_all: "list_all is_digit (replicate j 48)"
  by (induction j) (simp_all add: is_digit_def)

lemma parse_digits_value:
  "list_all is_digit xs \<Longrightarrow> rest = [] \<or> \<not> is_digit (hd rest) \<Longrightarrow>
   parse_digits acc (xs @ rest) = (digits_value acc xs, rest)"
proof (induction xs arbitrary: acc)
  case Nil
  then show ?case by (cases rest) (auto simp: digits_value_def)
next
  case (Cons x xs)
  then show ?case by (simp add: digits_value_def)
qed

lemma strip_zeros_canonical: "m mod 10 \<noteq> 0 \<Longrightarrow> strip_zeros m e = (m, e)"
  by (subst strip_zeros.simps) simp

lemma strip_zeros_power: "m mod 10 \<noteq> 0 \<Longrightarrow> strip_zeros (m * 10 ^ j) e = (m, e + int j)"
proof (induction j arbitrary: e)
  case 0
  then show ?case by (simp add: strip_zeros_canonical)
next
  case (Suc j)
  then have "m \<noteq> 0" by auto
  then have "strip_zeros (m * 10 ^ Suc j) e = strip_zeros (m * 10 ^ j) (e + 1)"
    by (subst strip_zeros.simps) simp
  with Suc show ?case by simp
qed

lemma strip_zeros_result: "m \<noteq> 0 \<Longrightarrow> strip_zeros m e = (s, x) \<Longrightarrow> s mod 10 \<noteq> 0"
proof (induction m e rule: strip_zeros.induct)
  case (1 m e)
  show ?case
  proof (cases "m mod 10 = 0")
    case True
    with "1.prems" have "m div 10 \<noteq> 0" by auto
    moreover from True "1.prems" have "strip_zeros (m div 10) (e + 1) = (s, x)"
      by (subst (asm) strip_zeros.simps) simp
    ultimately show ?thesis
      using "1.IH" True "1.prems"(1) by blast
  next
    case False
    with "1.prems" show ?thesis
      by (subst (asm) strip_zeros.simps) auto
  qed
qed

lemma decimal_power: "m mod 10 \<noteq> 0 \<Longrightarrow> decimal neg (m * 10 ^ j) e = Decimal neg m (e + int j)"
proof -
  assume h: "m mod 10 \<noteq> 0"
  then have "m \<noteq> 0" by auto
  with h show ?thesis by (simp add: decimal_def strip_zeros_power)
qed

lemma decimal_canonical: "m mod 10 \<noteq> 0 \<Longrightarrow> decimal neg m e = Decimal neg m e"
  using decimal_power [of m neg 0 e] by simp

lemma normal_canonical: "normal d = Decimal neg s x \<Longrightarrow> s mod 10 \<noteq> 0"
proof (cases d)
  case (Decimal b m e)
  assume n: "normal d = Decimal neg s x"
  show ?thesis
  proof (cases "m = 0")
    case True
    with n Decimal show ?thesis by (simp add: decimal_def split: if_splits)
  next
    case False
    obtain s' x' where st: "strip_zeros m e = (s', x')" by (cases "strip_zeros m e")
    with n Decimal False have "s' = s" by (simp add: decimal_def)
    with strip_zeros_result [OF False st] show ?thesis by simp
  qed
qed simp_all

lemma delimited_facts:
  assumes "delimited rest"
  shows "rest = [] \<or> \<not> is_digit (hd rest)"
    and "parse_fraction i rest = Some (i, 0, rest)"
    and "parse_exponent rest = Some (0, rest)"
  using assms
  by (cases rest; auto simp: delimited_def is_digit_def parse_fraction_def parse_exponent_def)+

lemma parse_exponent_text:
  assumes "delimited rest"
  shows "parse_exponent (101 # (if y < 0 then 45 else 43) # digits (nat \<bar>y\<bar>) @ rest) = Some (y, rest)"
proof -
  obtain d ds where h: "digits (nat \<bar>y\<bar>) = d # ds" "is_digit d"
    using digits_head by blast
  have p: "parse_digits 0 (digits (nat \<bar>y\<bar>) @ rest) = (nat \<bar>y\<bar>, rest)"
    using parse_digits_value [OF digits_all delimited_facts(1) [OF assms], of 0 "nat \<bar>y\<bar>"]
    by (simp add: digits_value_digits)
  show ?thesis
    using h p by (auto simp: parse_exponent_def simp del: parse_digits.simps)
qed

lemma parse_unsigned_start:
  assumes "is_digit c" and "c = 48 \<longrightarrow> (case cs of [] \<Rightarrow> True | d # ds \<Rightarrow> \<not> is_digit d)"
    and "parse_digits 0 (c # cs) = (i, r1)"
    and "parse_fraction i r1 = Some (m, fl, r2)"
    and "parse_exponent r2 = Some (y, r3)"
  shows "parse_unsigned neg (c # cs) = Some (decimal neg m (y - int fl), r3)"
  using assms by (auto simp: parse_unsigned_def simp del: parse_digits.simps split: list.splits)

lemma parse_fraction_text:
  assumes "list_all is_digit fs" and "fs \<noteq> []" and "rest = [] \<or> \<not> is_digit (hd rest)"
  shows "parse_fraction i (46 # fs @ rest) = Some (digits_value i fs, length fs, rest)"
proof -
  obtain f fs' where f: "fs = f # fs'" using assms(2) by (cases fs) auto
  with assms(1) have d: "is_digit f" by simp
  have "parse_digits i (fs @ rest) = (digits_value i fs, rest)"
    using assms(1,3) by (rule parse_digits_value)
  then show ?thesis
    using d f by (simp add: parse_fraction_def del: parse_digits.simps)
qed

lemma decimal_text_cases:
  assumes "ds = digits s" and "k = int (length ds)" and "n = x + k"
  shows "k \<le> n \<Longrightarrow> n \<le> 21 \<Longrightarrow> decimal_text s x = ds @ replicate (nat (n - k)) 48"
    and "0 < n \<Longrightarrow> n < k \<Longrightarrow> n \<le> 21 \<Longrightarrow>
         decimal_text s x = take (nat n) ds @ 46 # drop (nat n) ds"
    and "- 6 < n \<Longrightarrow> n \<le> 0 \<Longrightarrow>
         decimal_text s x = 48 # 46 # replicate (nat (- n)) 48 @ ds"
    and "21 < n \<or> n \<le> - 6 \<Longrightarrow>
         decimal_text s x =
           (if k = 1 then ds else hd ds # 46 # tl ds) @
           101 # (if n - 1 < 0 then 45 else 43) # digits (nat \<bar>n - 1\<bar>)"
proof -
  have dt: "decimal_text s x =
     (if k \<le> n \<and> n \<le> 21 then ds @ replicate (nat (n - k)) 48
      else if 0 < n \<and> n \<le> 21 then take (nat n) ds @ 46 # drop (nat n) ds
      else if - 6 < n \<and> n \<le> 0 then 48 # 46 # replicate (nat (- n)) 48 @ ds
      else (if k = 1 then ds else hd ds # 46 # tl ds) @
           101 # (if n - 1 < 0 then 45 else 43) # digits (nat \<bar>n - 1\<bar>))"
    unfolding decimal_text_def Let_def assms by (rule refl)
  have k1: "1 \<le> k"
    using digits_nonempty [of s] by (cases "digits s") (simp_all add: assms)
  show "k \<le> n \<Longrightarrow> n \<le> 21 \<Longrightarrow> decimal_text s x = ds @ replicate (nat (n - k)) 48"
    by (simp add: dt)
  show "decimal_text s x = take (nat n) ds @ 46 # drop (nat n) ds"
    if "0 < n" "n < k" "n \<le> 21"
  proof -
    show ?thesis using that k1 by (auto simp: dt)
  qed
  show "decimal_text s x = 48 # 46 # replicate (nat (- n)) 48 @ ds"
    if "- 6 < n" "n \<le> 0"
  proof -
    show ?thesis using that k1 by (auto simp: dt)
  qed
  show "decimal_text s x =
           (if k = 1 then ds else hd ds # 46 # tl ds) @
           101 # (if n - 1 < 0 then 45 else 43) # digits (nat \<bar>n - 1\<bar>)"
    if "21 < n \<or> n \<le> - 6"
  proof -
    show ?thesis using that k1 by (auto simp: dt)
  qed
qed

lemma parse_unsigned_text:
  assumes c: "s mod 10 \<noteq> 0" and r: "delimited rest"
  shows "parse_unsigned neg (decimal_text s x @ rest) = Some (Decimal neg s x, rest)"
proof -
  define ds where "ds = digits s"
  define k where "k = int (length ds)"
  define n where "n = x + k"
  note dt = decimal_text_cases [OF ds_def k_def n_def]
  obtain d0 r0 where h: "ds = d0 # r0" "is_digit d0" "d0 = 48 \<longrightarrow> s = 0 \<and> r0 = []"
    using digits_head [of s] by (auto simp: ds_def)
  from c have s0: "s \<noteq> 0" by auto
  with h have d0: "d0 \<noteq> 48" by blast
  have a: "list_all is_digit ds"
    by (simp add: ds_def digits_all)
  have v: "digits_value 0 ds = s"
    by (simp add: ds_def digits_value_digits)
  have k1: "1 \<le> k"
    by (simp add: k_def h)
  note stop = delimited_facts(1) [OF r]
  consider (plain) "k \<le> n" "n \<le> 21"
    | (point) "0 < n" "n < k" "n \<le> 21"
    | (small) "- 6 < n" "n \<le> 0"
    | (power) "21 < n \<or> n \<le> - 6"
    using k1 by linarith
  then show ?thesis
  proof cases
    case plain
    define j where "j = nat (n - k)"
    have t: "decimal_text s x @ rest = d0 # r0 @ replicate j 48 @ rest"
      by (simp add: dt(1) [OF plain] j_def h(1))
    have x: "0 - int 0 + int j = x"
      using plain by (simp add: j_def n_def)
    have "list_all is_digit (ds @ replicate j 48)"
      using a by (simp add: zeros_all)
    from parse_digits_value [OF this stop, of 0]
    have "parse_digits 0 ((ds @ replicate j 48) @ rest) = (s * 10 ^ j, rest)"
      by (simp only: digits_value_append v digits_value_zeros)
    then have p: "parse_digits 0 (d0 # r0 @ replicate j 48 @ rest) = (s * 10 ^ j, rest)"
      by (simp add: h(1) del: parse_digits.simps)
    have z: "d0 = 48 \<longrightarrow> (case r0 @ replicate j 48 @ rest of [] \<Rightarrow> True | d # ds \<Rightarrow> \<not> is_digit d)"
      using d0 by simp
    from parse_unsigned_start [OF h(2) z p delimited_facts(2) [OF r] delimited_facts(3) [OF r], of neg]
    show ?thesis
      by (simp only: t decimal_power [OF c] x)
  next
    case point
    define j where "j = nat n"
    have j: "0 < j" "j < length ds" "int j = n"
      using point by (simp_all add: j_def k_def)
    obtain t0 where tk: "take j ds = d0 # t0"
      using j(1) h(1) by (cases j) auto
    have t: "decimal_text s x @ rest = d0 # t0 @ 46 # drop j ds @ rest"
      by (simp add: dt(2) [OF point] j_def [symmetric] tk)
    have ta: "list_all is_digit (take j ds)" "list_all is_digit (drop j ds)"
      using a by (auto simp: list_all_iff dest: in_set_takeD in_set_dropD)
    have dn: "drop j ds \<noteq> []"
      using j(2) by simp
    have "\<not> is_digit 46" by (simp add: is_digit_def)
    then have "46 # drop j ds @ rest = [] \<or> \<not> is_digit (hd (46 # drop j ds @ rest))"
      by simp
    from parse_digits_value [OF ta(1) this, of 0]
    have p: "parse_digits 0 (d0 # t0 @ 46 # drop j ds @ rest) =
             (digits_value 0 (take j ds), 46 # drop j ds @ rest)"
      by (simp add: tk del: parse_digits.simps)
    have "digits_value (digits_value 0 (take j ds)) (drop j ds) = digits_value 0 (take j ds @ drop j ds)"
      by (simp only: digits_value_append)
    then have m: "digits_value (digits_value 0 (take j ds)) (drop j ds) = s"
      by (simp add: v)
    have f: "parse_fraction (digits_value 0 (take j ds)) (46 # drop j ds @ rest) =
             Some (s, length (drop j ds), rest)"
      using parse_fraction_text [OF ta(2) dn stop] by (simp only: m)
    have z: "d0 = 48 \<longrightarrow> (case t0 @ 46 # drop j ds @ rest of [] \<Rightarrow> True | d # ds \<Rightarrow> \<not> is_digit d)"
      using d0 by simp
    have e: "0 - int (length (drop j ds)) = x"
      using j by (simp add: n_def k_def)
    from parse_unsigned_start [OF h(2) z p f delimited_facts(3) [OF r], of neg]
    show ?thesis
      by (simp only: t decimal_canonical [OF c] e)
  next
    case small
    define j where "j = nat (- n)"
    have t: "decimal_text s x @ rest = 48 # 46 # (replicate j 48 @ ds) @ rest"
      by (simp add: dt(3) [OF small] j_def)
    have p: "parse_digits 0 (48 # 46 # (replicate j 48 @ ds) @ rest) =
             (0, 46 # (replicate j 48 @ ds) @ rest)"
      by (simp add: is_digit_def)
    have fa: "list_all is_digit (replicate j 48 @ ds)"
      using a by (simp add: zeros_all)
    have fn: "replicate j 48 @ ds \<noteq> []"
      using h(1) by simp
    have "digits_value 0 (replicate j 48 @ ds) = s"
      by (simp add: digits_value_append digits_value_zeros v)
    with parse_fraction_text [OF fa fn stop, of 0]
    have f: "parse_fraction 0 (46 # (replicate j 48 @ ds) @ rest) =
             Some (s, length (replicate j 48 @ ds), rest)"
      by simp
    have z: "(48::nat) = 48 \<longrightarrow>
             (case 46 # (replicate j 48 @ ds) @ rest of [] \<Rightarrow> True | d # ds \<Rightarrow> \<not> is_digit d)"
      by (simp add: is_digit_def)
    have g: "is_digit 48" by (simp add: is_digit_def)
    have e: "0 - int (length (replicate j 48 @ ds)) = x"
      using small by (simp add: j_def n_def k_def)
    from parse_unsigned_start [OF g z p f delimited_facts(3) [OF r], of neg]
    show ?thesis
      by (simp only: t decimal_canonical [OF c] e)
  next
    case power
    define y where "y = n - 1"
    define ex where "ex = 101 # (if y < 0 then 45 else 43) # digits (nat \<bar>y\<bar>) @ rest"
    have pe: "parse_exponent ex = Some (y, rest)"
      unfolding ex_def using r by (rule parse_exponent_text)
    have es: "ex = [] \<or> \<not> is_digit (hd ex)"
      by (simp add: ex_def is_digit_def)
    show ?thesis
    proof (cases "k = 1")
      case True
      then have r0: "r0 = []"
        using h(1) by (simp add: k_def)
      have t: "decimal_text s x @ rest = d0 # ex"
        using True by (simp add: dt(4) [OF power] y_def ex_def h(1) r0)
      have "parse_digits 0 (ds @ ex) = (digits_value 0 ds, ex)"
        using a es by (rule parse_digits_value)
      moreover have "digits_value 0 [d0] = s"
        using v by (simp add: h(1) r0)
      ultimately have p: "parse_digits 0 (d0 # ex) = (s, ex)"
        by (simp add: h(1) r0 del: parse_digits.simps)
      have f: "parse_fraction s ex = Some (s, 0, ex)"
        by (simp add: parse_fraction_def ex_def)
      have z: "d0 = 48 \<longrightarrow> (case ex of [] \<Rightarrow> True | d # ds \<Rightarrow> \<not> is_digit d)"
        using d0 by simp
      have e: "y - int 0 = x"
        using True by (simp add: y_def n_def)
      from parse_unsigned_start [OF h(2) z p f pe, of neg]
      show ?thesis
        by (simp only: t decimal_canonical [OF c] e)
    next
      case False
      then have rn: "r0 \<noteq> []"
        using h(1) by (auto simp: k_def)
      have ra: "list_all is_digit r0"
        using a h(1) by simp
      have t: "decimal_text s x @ rest = d0 # 46 # r0 @ ex"
        using False by (simp add: dt(4) [OF power] y_def ex_def h(1))
      have p: "parse_digits 0 (d0 # 46 # r0 @ ex) = (d0 - 48, 46 # r0 @ ex)"
        using h(2) by (simp add: is_digit_def)
      have "digits_value (d0 - 48) r0 = digits_value 0 (d0 # r0)"
        by (simp add: digits_value_def)
      then have m: "digits_value (d0 - 48) r0 = s"
        using v h(1) by simp
      have f: "parse_fraction (d0 - 48) (46 # r0 @ ex) = Some (s, length r0, ex)"
        using parse_fraction_text [OF ra rn es] by (simp only: m)
      have z: "d0 = 48 \<longrightarrow> (case 46 # r0 @ ex of [] \<Rightarrow> True | d # ds \<Rightarrow> \<not> is_digit d)"
        using d0 by simp
      have e: "y - int (length r0) = x"
        using h(1) by (simp add: y_def n_def k_def)
      from parse_unsigned_start [OF h(2) z p f pe, of neg]
      show ?thesis
        by (simp only: t decimal_canonical [OF c] e)
    qed
  qed
qed

lemma decimal_text_head: "\<exists>c cs. decimal_text s x = c # cs \<and> is_digit c"
proof -
  define ds where "ds = digits s"
  define k where "k = int (length ds)"
  define n where "n = x + k"
  note dt = decimal_text_cases [OF ds_def k_def n_def]
  obtain d0 r0 where h: "ds = d0 # r0" "is_digit d0"
    using digits_head [of s] by (auto simp: ds_def)
  have k1: "1 \<le> k"
    by (simp add: k_def h)
  have z: "is_digit 48" by (simp add: is_digit_def)
  have t: "0 < n \<Longrightarrow> take (nat n) ds = d0 # take (nat n - 1) r0"
    by (cases "nat n") (auto simp: h(1))
  consider (plain) "k \<le> n" "n \<le> 21"
    | (point) "0 < n" "n < k" "n \<le> 21"
    | (small) "- 6 < n" "n \<le> 0"
    | (power) "21 < n \<or> n \<le> - 6"
    using k1 by linarith
  then show ?thesis
  proof cases
    case plain
    have "decimal_text s x = d0 # r0 @ replicate (nat (n - k)) 48"
      by (simp add: dt(1) [OF plain] h(1))
    with h(2) show ?thesis by blast
  next
    case point
    have "decimal_text s x = d0 # take (nat n - 1) r0 @ 46 # drop (nat n) ds"
      by (simp add: dt(2) [OF point] t [OF point(1)])
    with h(2) show ?thesis by blast
  next
    case small
    have "decimal_text s x = 48 # 46 # replicate (nat (- n)) 48 @ ds"
      by (simp add: dt(3) [OF small])
    with z show ?thesis by blast
  next
    case power
    have "decimal_text s x = d0 # (if k = 1 then r0 else 46 # r0) @
           101 # (if n - 1 < 0 then 45 else 43) # digits (nat \<bar>n - 1\<bar>)"
      by (simp add: dt(4) [OF power] h(1))
    with h(2) show ?thesis by blast
  qed
qed

lemma Number_toString_head:
  assumes "is_finite d"
  shows "\<exists>c cs. Number_toString d = c # cs \<and> (c = 45 \<or> is_digit c)"
proof (cases "normal d")
  case (Decimal neg s x)
  obtain c cs where "decimal_text s x = c # cs" "is_digit c"
    using decimal_text_head by blast
  with Decimal show ?thesis by (simp add: Number_toString_def)
next
  case PlusZero
  then show ?thesis by (simp add: Number_toString_def js_def is_digit_def)
next
  case MinusZero
  then show ?thesis by (simp add: Number_toString_def js_def is_digit_def)
next
  case NotANumber
  with assms show ?thesis by (cases d) (simp_all add: decimal_def split: if_splits prod.splits)
next
  case PlusInfinity
  with assms show ?thesis by (cases d) (simp_all add: decimal_def split: if_splits prod.splits)
next
  case MinusInfinity
  with assms show ?thesis by (cases d) (simp_all add: decimal_def split: if_splits prod.splits)
qed

lemma parse_number_toString:
  assumes "is_finite d" and "delimited rest"
  shows "parse_number (Number_toString d @ rest) = Some (number_read_back d, rest)"
proof (cases "normal d")
  case (Decimal neg s x)
  then have c: "s mod 10 \<noteq> 0" by (rule normal_canonical)
  obtain c0 cs where h: "decimal_text s x = c0 # cs" "is_digit c0"
    using decimal_text_head by blast
  then have "c0 \<noteq> 45" by (auto simp: is_digit_def)
  with parse_unsigned_text [OF c assms(2), of neg x] h Decimal show ?thesis
    by (cases neg) (simp_all add: parse_number_def Number_toString_def number_read_back_def)
next
  case PlusZero
  have "parse_unsigned False (48 # rest) = Some (PlusZero, rest)"
    using assms(2) delimited_facts [OF assms(2)]
    by (cases rest) (auto simp: parse_unsigned_def is_digit_def decimal_def delimited_def)
  with PlusZero show ?thesis
    by (simp add: parse_number_def Number_toString_def number_read_back_def js_def)
next
  case MinusZero
  have "parse_unsigned False (48 # rest) = Some (PlusZero, rest)"
    using assms(2) delimited_facts [OF assms(2)]
    by (cases rest) (auto simp: parse_unsigned_def is_digit_def decimal_def delimited_def)
  with MinusZero show ?thesis
    by (simp add: parse_number_def Number_toString_def number_read_back_def js_def)
next
  case NotANumber
  with assms(1) show ?thesis by (cases d) (simp_all add: decimal_def split: if_splits prod.splits)
next
  case PlusInfinity
  with assms(1) show ?thesis by (cases d) (simp_all add: decimal_def split: if_splits prod.splits)
next
  case MinusInfinity
  with assms(1) show ?thesis by (cases d) (simp_all add: decimal_def split: if_splits prod.splits)
qed

lemma hexval_hexdigit: "d < 16 \<Longrightarrow> hexval (hexdigit d) = Some d"
  by (auto simp: hexval_def hexdigit_def)

lemma parse_string_escape_u:
  assumes "hexval h1 = Some a" "hexval h2 = Some b" "hexval h3 = Some c" "hexval h4 = Some d"
  shows "parse_string (92 # 117 # h1 # h2 # h3 # h4 # t) =
         map_option (\<lambda>(s, r). ((((a * 16 + b) * 16 + c) * 16 + d) # s, r)) (parse_string t)"
  using assms by simp

lemma parse_string_unicode_escape:
  assumes "c < 65536"
  shows "parse_string (unicode_escape c @ t) = map_option (\<lambda>(s, r). (c # s, r)) (parse_string t)"
proof -
  have h: "hexval (hexdigit (c div 4096 mod 16)) = Some (c div 4096 mod 16)"
    "hexval (hexdigit (c div 256 mod 16)) = Some (c div 256 mod 16)"
    "hexval (hexdigit (c div 16 mod 16)) = Some (c div 16 mod 16)"
    "hexval (hexdigit (c mod 16)) = Some (c mod 16)"
    by (simp_all add: hexval_hexdigit)
  have "unicode_escape c @ t =
        92 # 117 # hexdigit (c div 4096 mod 16) # hexdigit (c div 256 mod 16) #
        hexdigit (c div 16 mod 16) # hexdigit (c mod 16) # t"
    by (simp add: unicode_escape_def)
  then show ?thesis
    by (simp only: parse_string_escape_u [OF h] hex_digits_value [OF assms])
qed

lemma parse_string_literal:
  "32 \<le> c \<Longrightarrow> c \<noteq> 34 \<Longrightarrow> c \<noteq> 92 \<Longrightarrow>
   parse_string (c # t) = map_option (\<lambda>(s, r). (c # s, r)) (parse_string t)"
  by simp

lemma parse_string_quote_unit:
  "parse_string (quote_unit c @ t) = map_option (\<lambda>(s, r). (c # s, r)) (parse_string t)"
proof -
  consider "c = 8" | "c = 9" | "c = 10" | "c = 12" | "c = 13" | "c = 34" | "c = 92"
    | "c \<notin> {8, 9, 10, 12, 13, 34, 92}" "c < 32 \<or> is_high_surrogate c \<or> is_low_surrogate c"
    | "c \<notin> {8, 9, 10, 12, 13, 34, 92}" "\<not> (c < 32 \<or> is_high_surrogate c \<or> is_low_surrogate c)"
    by blast
  then show ?thesis
  proof cases
    case 8
    then have "c < 65536"
      by (auto simp: is_high_surrogate_def is_low_surrogate_def)
    from parse_string_unicode_escape [OF this] 8 show ?thesis
      by (simp add: quote_unit_def)
  next
    case 9
    then have "quote_unit c = [c]" "32 \<le> c" "c \<noteq> 34" "c \<noteq> 92"
      by (auto simp: quote_unit_def)
    then show ?thesis
      by simp
  qed (simp_all add: quote_unit_def simple_escape_def)
qed

lemma parse_string_quote_units:
  "parse_string (quote_units s @ 34 # rest) = Some (s, rest)"
proof (induction s rule: quote_units.induct)
  case 1
  show ?case by simp
next
  case (2 c)
  show ?case
    by (simp only: quote_units.simps parse_string_quote_unit) simp
next
  case (3 c d ds)
  show ?case
  proof (cases "is_high_surrogate c \<and> is_low_surrogate d")
    case True
    then have l: "32 \<le> c" "c \<noteq> 34" "c \<noteq> 92" "32 \<le> d" "d \<noteq> 34" "d \<noteq> 92"
      by (auto simp: is_high_surrogate_def is_low_surrogate_def)
    from True have "quote_units (c # d # ds) @ 34 # rest = c # d # (quote_units ds @ 34 # rest)"
      by simp
    then show ?thesis
      using "3.IH"(1) [OF True] l by (simp only: parse_string_literal) simp
  next
    case False
    then have "quote_units (c # d # ds) @ 34 # rest =
               quote_unit c @ (quote_units (d # ds) @ 34 # rest)"
      by auto
    then show ?thesis
      using "3.IH"(2) [OF False] by (simp only: parse_string_quote_unit) simp
  qed
qed

lemma value_start_facts:
  "value_start c \<Longrightarrow> \<not> is_whitespace c \<and> c \<noteq> 93 \<and> c \<noteq> 125"
  by (auto simp: value_start_def is_whitespace_def is_digit_def)

lemma skip_whitespace_Cons: "\<not> is_whitespace c \<Longrightarrow> skip_whitespace (c # cs) = c # cs"
  by (simp add: skip_whitespace_def)

lemma skip_whitespace_delimited: "delimited r \<Longrightarrow> skip_whitespace r = r"
  by (cases r) (auto simp: delimited_def skip_whitespace_def is_whitespace_def)

lemma JSON_stringify_head: "\<exists>c cs. JSON_stringify v = c # cs \<and> value_start c"
proof (cases v)
  case (JNumber d)
  show ?thesis
  proof (cases "is_finite d")
    case True
    then obtain c cs where "Number_toString d = c # cs" "c = 45 \<or> is_digit c"
      using Number_toString_head by blast
    with JNumber True show ?thesis by (auto simp: value_start_def)
  next
    case False
    with JNumber show ?thesis by (simp add: value_start_def js_def)
  qed
qed (auto simp: value_start_def js_def QuoteJSONString_def)

lemma JSON_stringify_length: "0 < length (JSON_stringify v)"
  using JSON_stringify_head [of v] by auto

lemma stringify_elements_head:
  "xs \<noteq> [] \<Longrightarrow> \<exists>c cs. stringify_elements xs = c # cs \<and> value_start c"
proof (cases xs)
  case Nil
  moreover assume "xs \<noteq> []"
  ultimately show ?thesis by simp
next
  case (Cons x ys)
  obtain c cs where "JSON_stringify x = c # cs" "value_start c"
    using JSON_stringify_head by blast
  with Cons show ?thesis by (cases ys) auto
qed

lemma stringify_members_head:
  "ms \<noteq> [] \<Longrightarrow> \<exists>cs. stringify_members ms = 34 # cs"
proof (cases ms)
  case Nil
  moreover assume "ms \<noteq> []"
  ultimately show ?thesis by simp
next
  case (Cons m ys)
  then show ?thesis by (cases m; cases ys) (auto simp: QuoteJSONString_def)
qed

lemma parse_value_null: "parse_value (Suc m) (js ''null'' @ rest) = Some (JNull, rest)"
  by (simp add: js_def skip_whitespace_def is_whitespace_def)

lemma parse_value_true: "parse_value (Suc m) (js ''true'' @ rest) = Some (JBool True, rest)"
  by (simp add: js_def skip_whitespace_def is_whitespace_def)

lemma parse_value_false: "parse_value (Suc m) (js ''false'' @ rest) = Some (JBool False, rest)"
  by (simp add: js_def skip_whitespace_def is_whitespace_def)

lemma parse_value_number:
  "c = 45 \<or> is_digit c \<Longrightarrow>
   parse_value (Suc m) (c # cs) = map_option (\<lambda>(d, r). (JNumber d, r)) (parse_number (c # cs))"
  by (auto simp: skip_whitespace_def is_whitespace_def is_digit_def)

lemma parse_value_string:
  "parse_value (Suc m) (34 # cs) = map_option (\<lambda>(s, r). (JStr s, r)) (parse_string cs)"
  by (simp add: skip_whitespace_def is_whitespace_def)

lemma parse_value_array_empty: "parse_value (Suc m) (91 # 93 # r) = Some (JArr [], r)"
  by (simp add: skip_whitespace_def is_whitespace_def)

lemma parse_value_array:
  "\<not> is_whitespace d \<Longrightarrow> d \<noteq> 93 \<Longrightarrow>
   parse_value (Suc m) (91 # d # r) =
     map_option (\<lambda>(xs, r'). (JArr xs, r')) (parse_elements m (d # r))"
  by (simp add: skip_whitespace_def is_whitespace_def)

lemma parse_value_object_empty: "parse_value (Suc m) (123 # 125 # r) = Some (JObj [], r)"
  by (simp add: skip_whitespace_def is_whitespace_def)

lemma parse_value_object:
  "\<not> is_whitespace d \<Longrightarrow> d \<noteq> 125 \<Longrightarrow>
   parse_value (Suc m) (123 # d # r) =
     map_option (\<lambda>(ms, r'). (JObj ms, r')) (parse_members m (d # r))"
  by (simp add: skip_whitespace_def is_whitespace_def)

lemma parse_elements_last:
  "parse_value m s = Some (v, 93 # r) \<Longrightarrow> parse_elements (Suc m) s = Some ([v], r)"
  by (simp add: skip_whitespace_def is_whitespace_def)

lemma parse_elements_more:
  "parse_value m s = Some (v, 44 # r) \<Longrightarrow>
   parse_elements (Suc m) s = map_option (\<lambda>(vs, t). (v # vs, t)) (parse_elements m r)"
  by (simp add: skip_whitespace_def is_whitespace_def)

lemma parse_members_last:
  "parse_string s = Some (k, 58 # r) \<Longrightarrow> parse_value m r = Some (v, 125 # t) \<Longrightarrow>
   parse_members (Suc m) (34 # s) = Some ([(k, v)], t)"
  by (simp add: skip_whitespace_def is_whitespace_def)

lemma parse_members_more:
  "parse_string s = Some (k, 58 # r) \<Longrightarrow> parse_value m r = Some (v, 44 # t) \<Longrightarrow>
   parse_members (Suc m) (34 # s) =
     map_option (\<lambda>(ms, u). ((k, v) # ms, u)) (parse_members m t)"
  by (simp add: skip_whitespace_def is_whitespace_def)

lemma delimited_simps: "delimited (44 # r)" "delimited (93 # r)" "delimited (125 # r)" "delimited []"
  by (simp_all add: delimited_def)

lemma parse_stringify:
  shows "delimited rest \<Longrightarrow> length (JSON_stringify v) < n \<Longrightarrow>
         parse_value n (JSON_stringify v @ rest) = Some (JSON_read_back v, rest)"
    and "xs \<noteq> [] \<Longrightarrow> length (stringify_elements xs) + 1 < n \<Longrightarrow>
         parse_elements n (stringify_elements xs @ 93 # rest) = Some (read_back_elements xs, rest)"
    and "ms \<noteq> [] \<Longrightarrow> length (stringify_members ms) + 1 < n \<Longrightarrow>
         parse_members n (stringify_members ms @ 125 # rest) = Some (read_back_members ms, rest)"
proof (induction v and xs and ms arbitrary: n rest and n rest and n rest
       rule: JSON_stringify_stringify_elements_stringify_members.induct)
  case 1
  then obtain m where "n = Suc m" by (cases n) auto
  then show ?case by (simp only: JSON_stringify.simps JSON_read_back.simps parse_value_null)
next
  case (2 b)
  then obtain m where "n = Suc m" by (cases n) auto
  then show ?case
    by (cases b) (simp_all only: JSON_stringify.simps JSON_read_back.simps parse_value_true
        parse_value_false if_True if_False)
next
  case (3 d)
  then obtain m where n: "n = Suc m" by (cases n) auto
  show ?case
  proof (cases "is_finite d")
    case True
    then obtain c cs where h: "Number_toString d = c # cs" "c = 45 \<or> is_digit c"
      using Number_toString_head by blast
    have "parse_value (Suc m) (Number_toString d @ rest) =
          map_option (\<lambda>(d, r). (JNumber d, r)) (parse_number (Number_toString d @ rest))"
      using parse_value_number [OF h(2), of m "cs @ rest"] h(1) by simp
    then show ?thesis
      using "3.prems"(1) True
      by (simp add: n parse_number_toString del: parse_value.simps)
  next
    case False
    then show ?thesis
      by (simp only: JSON_stringify.simps JSON_read_back.simps if_False n parse_value_null)
  qed
next
  case (4 s)
  then obtain m where n: "n = Suc m" by (cases n) auto
  show ?case
    by (simp add: n QuoteJSONString_def parse_value_string parse_string_quote_units
        del: parse_value.simps)
next
  case (5 xs)
  then obtain m where n: "n = Suc m" by (cases n) auto
  show ?case
  proof (cases "xs = []")
    case True
    then show ?thesis
      by (simp add: n parse_value_array_empty del: parse_value.simps)
  next
    case False
    then obtain c cs where h: "stringify_elements xs = c # cs" "value_start c"
      using stringify_elements_head by blast
    have l: "length (stringify_elements xs) + 1 < m"
      using "5.prems"(2) n by simp
    have "parse_value (Suc m) (91 # c # cs @ 93 # rest) =
          map_option (\<lambda>(xs, r'). (JArr xs, r')) (parse_elements m (c # cs @ 93 # rest))"
      using value_start_facts [OF h(2)] by (intro parse_value_array) simp_all
    moreover have "parse_elements m (c # cs @ 93 # rest) = Some (read_back_elements xs, rest)"
      using "5.IH" [OF False l, of rest] h(1) by simp
    ultimately show ?thesis
      using h(1) by (simp add: n del: parse_value.simps)
  qed
next
  case (6 ms)
  then obtain m where n: "n = Suc m" by (cases n) auto
  show ?case
  proof (cases "ms = []")
    case True
    then show ?thesis
      by (simp add: n parse_value_object_empty del: parse_value.simps)
  next
    case False
    then obtain cs where h: "stringify_members ms = 34 # cs"
      using stringify_members_head by blast
    have l: "length (stringify_members ms) + 1 < m"
      using "6.prems"(2) n by simp
    have w: "\<not> is_whitespace 34" "(34::nat) \<noteq> 125"
      by (simp_all add: is_whitespace_def)
    have "parse_value (Suc m) (123 # 34 # cs @ 125 # rest) =
          map_option (\<lambda>(ms, r'). (JObj ms, r')) (parse_members m (34 # cs @ 125 # rest))"
      using w by (intro parse_value_object)
    moreover have "parse_members m (34 # cs @ 125 # rest) = Some (read_back_members ms, rest)"
      using "6.IH" [OF False l, of rest] h by simp
    ultimately show ?thesis
      using h by (simp add: n del: parse_value.simps)
  qed
next
  case 7
  then show ?case by simp
next
  case (8 x)
  then obtain m where n: "n = Suc m" by (cases n) auto
  have "length (JSON_stringify x) < m"
    using "8.prems"(2) n by simp
  from "8.IH" [OF delimited_simps(2) this, of rest]
  show ?case
    by (simp add: n parse_elements_last del: parse_elements.simps)
next
  case (9 x y ys)
  then obtain m where n: "n = Suc m" by (cases n) auto
  have l: "length (JSON_stringify x) < m" "length (stringify_elements (y # ys)) + 1 < m"
    using "9.prems"(2) n JSON_stringify_length [of x] by simp_all
  have "parse_value m (JSON_stringify x @ 44 # stringify_elements (y # ys) @ 93 # rest) =
        Some (JSON_read_back x, 44 # stringify_elements (y # ys) @ 93 # rest)"
    by (rule "9.IH"(1) [OF delimited_simps(1) l(1)])
  from parse_elements_more [OF this] "9.IH"(2) [OF _ l(2), of rest]
  show ?case
    by (simp add: n del: parse_elements.simps)
next
  case 10
  then show ?case by simp
next
  case (11 k v)
  then obtain m where n: "n = Suc m" by (cases n) auto
  have l: "length (JSON_stringify v) < m"
    using "11.prems"(2) n by (simp add: QuoteJSONString_def)
  have s: "parse_string (quote_units k @ 34 # 58 # JSON_stringify v @ 125 # rest) =
           Some (k, 58 # JSON_stringify v @ 125 # rest)"
    by (rule parse_string_quote_units)
  have p: "parse_value m (JSON_stringify v @ 125 # rest) = Some (JSON_read_back v, 125 # rest)"
    by (rule "11.IH" [OF delimited_simps(3) l])
  from parse_members_last [OF s p]
  show ?case
    by (simp add: n QuoteJSONString_def del: parse_members.simps)
next
  case (12 k v m' ms)
  then obtain m where n: "n = Suc m" by (cases n) auto
  have l: "length (JSON_stringify v) < m" "length (stringify_members (m' # ms)) + 1 < m"
    using "12.prems"(2) n by (simp_all add: QuoteJSONString_def)
  let ?t = "stringify_members (m' # ms) @ 125 # rest"
  have s: "parse_string (quote_units k @ 34 # 58 # JSON_stringify v @ 44 # ?t) =
           Some (k, 58 # JSON_stringify v @ 44 # ?t)"
    by (rule parse_string_quote_units)
  have p: "parse_value m (JSON_stringify v @ 44 # ?t) = Some (JSON_read_back v, 44 # ?t)"
    by (rule "12.IH"(1) [OF delimited_simps(1) l(1)])
  from parse_members_more [OF s p] "12.IH"(2) [OF _ l(2), of rest]
  show ?case
    by (simp add: n QuoteJSONString_def del: parse_members.simps)
qed

lemma JSON_parse_stringify: "JSON_parse (JSON_stringify v) = Some (JSON_read_back v)"
proof -
  have "parse_value (2 * length (JSON_stringify v) + 2) (JSON_stringify v @ []) =
        Some (JSON_read_back v, [])"
    by (rule parse_stringify(1)) (simp_all add: delimited_def)
  then show ?thesis
    by (simp add: JSON_parse_def skip_whitespace_def)
qed

subsection \<open>The policy read back from the signed URL\<close>

lemma parameter_names_differ:
  "js ''x-medoro-policy'' \<noteq> js ''x-medoro-signature-input''"
  "js ''x-medoro-policy'' \<noteq> js ''x-medoro-signature''"
  by (simp_all add: js_def)

lemma number_read_back_exact:
  "is_finite d \<Longrightarrow> d \<noteq> MinusZero \<Longrightarrow> normal d = d \<Longrightarrow> number_read_back d = d"
  by (cases d) (simp_all add: number_read_back_def)

lemma JSON_read_back_exact:
  shows "JSON_exact v \<Longrightarrow> JSON_read_back v = v"
    and "exact_elements xs \<Longrightarrow> read_back_elements xs = xs"
    and "exact_members ms \<Longrightarrow> read_back_members ms = ms"
  by (induction v and xs and ms rule: JSON_exact_exact_elements_exact_members.induct)
     (simp_all add: number_read_back_exact)

lemma decode_policy_encoded:
  assumes "btoa (JSON_stringify pol) = Returns b"
    and "searchParams_get (searchParams u) (js ''x-medoro-policy'') = Some b"
  shows "decode_policy u = Some (JSON_read_back pol)"
  using assms by (simp add: decode_policy_def atob_btoa JSON_parse_stringify)

lemma signed_url_policy:
  assumes "policy command = Some pol"
    and "snd (createSignedUrl this p command expiry) = Returns (ok r)"
  shows "\<exists>b. btoa (JSON_stringify pol) = Returns b \<and>
           searchParams_get (searchParams (signedUrl r)) (js ''x-medoro-policy'') = Some b"
  using assms
  by (auto simp: createSignedUrl_def Let_def searchParams_get_set_same
        searchParams_get_set_other parameter_names_differ
      split: if_splits option.splits completion.splits sum.splits prod.splits)

lemma returned_policy_read_back:
  assumes "policy command = Some pol"
    and "snd (createSignedUrl this p command expiry) = Returns (ok r)"
  shows "returned_policy (snd (createSignedUrl this p command expiry)) = Some (JSON_read_back pol)"
proof -
  obtain b where "btoa (JSON_stringify pol) = Returns b"
    and "searchParams_get (searchParams (signedUrl r)) (js ''x-medoro-policy'') = Some b"
    using signed_url_policy [OF assms] by blast
  then have "decode_policy (signedUrl r) = Some (JSON_read_back pol)"
    by (rule decode_policy_encoded)
  then show ?thesis
    by (simp add: returned_policy_def assms(2))
qed

text \<open>With the sample platform, signing a store command succeeds when \<open>btoa\<close> does.\<close>

lemma sample_put_succeeds:
  assumes "list_all (\<lambda>c. c \<le> 255) (JSON_stringify pol)"
  shows "\<exists>r. snd (createSignedUrl sample_client (sample_platform answer)
                     (PutObjectCommand k pol c) None) = Returns (ok r)"
  using assms by (simp add: createSignedUrl_def sample_defs btoa_def)

lemma replicate_3: "replicate 3 x = [x, x, x]"
  by (simp add: numeral_3_eq_3)

lemmas stringify_defs =
  js_def QuoteJSONString_def quote_unit_def is_high_surrogate_def is_low_surrogate_def
  Number_toString_def decimal_def decimal_text_def strip_zeros.simps digits.simps Let_def

lemma sample_policies_encode:
  "list_all (\<lambda>c. c \<le> 255) (JSON_stringify negative_zero_policy)"
  "list_all (\<lambda>c. c \<le> 255) (JSON_stringify infinite_policy)"
  "list_all (\<lambda>c. c \<le> 255) (JSON_stringify fraction_policy)"
  by (simp_all add: negative_zero_policy_def infinite_policy_def fraction_policy_def stringify_defs
      replicate_3)

text \<open>
  C3, as stated, fails.  A policy that the policy schema accepts and that holds the
  negative zero: \<open>createSignedUrl\<close> returns a signed URL, and the policy read back from
  it holds the positive zero.  A policy that holds an infinity (which the type of a
  policy admits and the constructor does not check): the policy read back holds \<open>null\<close>.
\<close>

theorem policy_round_trip_counterexample:
  "ApiPutRequestValidationPolicySchema_accepts negative_zero_policy \<and>
   policy (PutObjectCommand (js ''/a.txt'') negative_zero_policy None) = Some negative_zero_policy \<and>
   returned_policy
     (snd (createSignedUrl sample_client (sample_platform (Inl []))
             (PutObjectCommand (js ''/a.txt'') negative_zero_policy None) None)) =
     Some (JObj [(js ''apiPutV1'',
                  JObj [(js ''conditions'', JObj [(js ''n'', JObj [(js ''lte'', JNumber PlusZero)])]),
                        (js ''accessControl'', JStr (js ''private''))])]) \<and>
   JObj [(js ''apiPutV1'',
          JObj [(js ''conditions'', JObj [(js ''n'', JObj [(js ''lte'', JNumber PlusZero)])]),
                (js ''accessControl'', JStr (js ''private''))])] \<noteq> negative_zero_policy \<and>
   returned_policy
     (snd (createSignedUrl sample_client (sample_platform (Inl []))
             (PutObjectCommand (js ''/a.txt'') infinite_policy None) None)) =
     Some (JObj [(js ''apiPutV1'',
                  JObj [(js ''conditions'', JObj [(js ''n'', JObj [(js ''lte'', JNull)])]),
                        (js ''accessControl'', JStr (js ''private''))])]) \<and>
   JObj [(js ''apiPutV1'',
          JObj [(js ''conditions'', JObj [(js ''n'', JObj [(js ''lte'', JNull)])]),
                (js ''accessControl'', JStr (js ''private''))])] \<noteq> infinite_policy"
proof -
  let ?z = "PutObjectCommand (js ''/a.txt'') negative_zero_policy None"
  let ?i = "PutObjectCommand (js ''/a.txt'') infinite_policy None"
  have a: "ApiPutRequestValidationPolicySchema_accepts negative_zero_policy"
    by (simp add: ApiPutRequestValidationPolicySchema_accepts_def negative_zero_policy_def js_def
        ValidationConditionSchema_accepts_def has_string_def has_number_def)
  have pz: "policy ?z = Some negative_zero_policy" and pi: "policy ?i = Some infinite_policy"
    by (simp_all add: PutObjectCommand_def)
  obtain rz where rz: "snd (createSignedUrl sample_client (sample_platform (Inl [])) ?z None) =
      Returns (ok rz)"
    using sample_put_succeeds [OF sample_policies_encode(1)] by blast
  obtain ri where ri: "snd (createSignedUrl sample_client (sample_platform (Inl [])) ?i None) =
      Returns (ok ri)"
    using sample_put_succeeds [OF sample_policies_encode(2)] by blast
  have z: "JSON_read_back negative_zero_policy =
      JObj [(js ''apiPutV1'',
             JObj [(js ''conditions'', JObj [(js ''n'', JObj [(js ''lte'', JNumber PlusZero)])]),
                   (js ''accessControl'', JStr (js ''private''))])]"
    by (simp add: negative_zero_policy_def number_read_back_def)
  have i: "JSON_read_back infinite_policy =
      JObj [(js ''apiPutV1'',
             JObj [(js ''conditions'', JObj [(js ''n'', JObj [(js ''lte'', JNull)])]),
                   (js ''accessControl'', JStr (js ''private''))])]"
    by (simp add: infinite_policy_def)
  have nz: "JObj [(js ''apiPutV1'',
          JObj [(js ''conditions'', JObj [(js ''n'', JObj [(js ''lte'', JNumber PlusZero)])]),
                (js ''accessControl'', JStr (js ''private''))])] \<noteq> negative_zero_policy"
    by (simp add: negative_zero_policy_def)
  have ni: "JObj [(js ''apiPutV1'',
          JObj [(js ''conditions'', JObj [(js ''n'', JObj [(js ''lte'', JNull)])]),
                (js ''accessControl'', JStr (js ''private''))])] \<noteq> infinite_policy"
    by (simp add: infinite_policy_def)
  from a pz returned_policy_read_back [OF pz rz] nz returned_policy_read_back [OF pi ri] ni
  show ?thesis
    by (simp only: z i simp_thms)
qed

text \<open>
  C3, amended.  For a command that carries a policy, when \<open>createSignedUrl\<close> returns a
  signed URL, the query parameter \<open>x-medoro-policy\<close> of that URL, decoded from base64 and
  parsed as JSON, is what the policy reads back as: the policy with every \<open>NaN\<close> and
  infinity replaced by \<open>null\<close> and every negative zero by the positive zero.  It is the
  policy itself when every number in the policy is finite and not the negative zero.
\<close>

theorem policy_round_trip:
  assumes "policy command = Some pol"
    and "snd (createSignedUrl this p command expiry) = Returns (ok r)"
  shows "decode_policy (signedUrl r) = Some (JSON_read_back pol) \<and>
         (JSON_exact pol \<longrightarrow> decode_policy (signedUrl r) = Some pol)"
proof -
  obtain b where b: "btoa (JSON_stringify pol) = Returns b"
    and u: "searchParams_get (searchParams (signedUrl r)) (js ''x-medoro-policy'') = Some b"
    using signed_url_policy [OF assms] by blast
  then have "decode_policy (signedUrl r) = Some (JSON_read_back pol)"
    by (rule decode_policy_encoded)
  then show ?thesis
    by (simp add: JSON_read_back_exact(1))
qed

theorem policy_round_trip_witness:
  "policy (PutObjectCommand (js ''/a.txt'') fraction_policy None) = Some fraction_policy \<and>
   JSON_exact fraction_policy \<and>
   ApiPutRequestValidationPolicySchema_accepts fraction_policy \<and>
   (\<exists>r. snd (createSignedUrl sample_client (sample_platform (Inl []))
               (PutObjectCommand (js ''/a.txt'') fraction_policy None) None) = Returns (ok r) \<and>
        decode_policy (signedUrl r) = Some fraction_policy)"
proof -
  let ?c = "PutObjectCommand (js ''/a.txt'') fraction_policy None"
  have h1: "policy ?c = Some fraction_policy"
    by (simp add: PutObjectCommand_def)
  obtain r where h2: "snd (createSignedUrl sample_client (sample_platform (Inl [])) ?c None) =
      Returns (ok r)"
    using sample_put_succeeds [OF sample_policies_encode(3)] by blast
  have e: "JSON_exact fraction_policy"
    by (simp add: fraction_policy_def decimal_def strip_zeros.simps)
  have a: "ApiPutRequestValidationPolicySchema_accepts fraction_policy"
    by (simp add: ApiPutRequestValidationPolicySchema_accepts_def fraction_policy_def js_def
        ValidationConditionSchema_accepts_def has_string_def has_number_def)
  from policy_round_trip [OF h1 h2] h1 h2 e a show ?thesis by blast
qed

subsection \<open>The frame of createSignedUrl\<close>

text \<open>The store-level function computes what \<open>createSignedUrl\<close> computes.\<close>

lemma createSignedUrl_on_value:
  assumes "command_at h c = Some command"
    and "createSignedUrl_on this p h c expiry = (h', effects, outcome)"
  shows "\<exists>outcome'. signed_url_of h' outcome = Some outcome' \<and>
           createSignedUrl this p command expiry = (effects, outcome')"
  using assms
  by (auto simp: createSignedUrl_on_def createSignedUrl_def signed_url_of_def url_at_def Let_def
      nth_append
      split: if_splits option.splits completion.splits sum.splits prod.splits)

lemma createSignedUrl_on_prefix:
  assumes "createSignedUrl_on this p h c expiry = (h', effects, outcome)"
  shows "take (length h) h' = h"
  using assms
  by (auto simp: createSignedUrl_on_def Let_def
      split: if_splits option.splits completion.splits sum.splits prod.splits)

lemma prefix_command_at:
  assumes "take (length h) h' = h" and "command_at h c = Some command"
  shows "command_at h' c = Some command"
proof -
  from assms(2) have c: "c < length h"
    by (simp add: command_at_def split: if_splits)
  have "length (take (length h) h') = length h"
    using assms(1) by simp
  then have "length h \<le> length h'"
    by simp
  moreover have "h' ! c = h ! c"
    using assms(1) c by (metis nth_take)
  ultimately show ?thesis
    using assms(2) c by (simp add: command_at_def)
qed

text \<open>
  C9.  \<open>createSignedUrl\<close> leaves every object that exists before the call as it is: the
  command it is given (with its method, key, headers, policy and content) and every
  other object the caller can reach.  When it returns a signed URL, that URL is a new
  object, different from the new \<open>URL\<close> object handed to the signing primitive; the
  signature parameters are set on the former, and the latter is still what the signing
  primitive saw.
\<close>

theorem createSignedUrl_frame:
  assumes "createSignedUrl_on this p h c expiry = (h', effects, outcome)"
  shows "take (length h) h' = h \<and>
         command_at h' c = command_at h c \<and>
         (\<forall>a m. outcome = Returns (ok (a, m)) \<longrightarrow>
            length h < a \<and> a < length h' \<and>
            (\<exists>req r. effects = [Signing req] \<and>
               createSignatureForRequest p req = ok r \<and>
               url_at h' (length h) = Some (request_url req) \<and>
               url_at h' a =
                 Some ((request_url req)\<lparr>searchParams :=
                    searchParams_set
                      (searchParams_set (searchParams (request_url req))
                         (js ''x-medoro-signature-input'') (signatureInput r))
                      (js ''x-medoro-signature'') (signature r)\<rparr>)))"
proof -
  have t: "take (length h) h' = h"
    using assms by (rule createSignedUrl_on_prefix)
  have l: "length h \<le> length h'"
    using assms
    by (auto simp: createSignedUrl_on_def Let_def
        split: if_splits option.splits completion.splits sum.splits prod.splits)
  have n: "a < length h \<Longrightarrow> h' ! a = h ! a" for a
    using t by (metis nth_take)
  have c: "command_at h' c = command_at h c"
  proof (cases "c < length h")
    case True
    with n l show ?thesis by (simp add: command_at_def)
  next
    case False
    with assms show ?thesis
      by (simp add: createSignedUrl_on_def command_at_def)
  qed
  have s: "\<forall>a m. outcome = Returns (ok (a, m)) \<longrightarrow>
            length h < a \<and> a < length h' \<and>
            (\<exists>req r. effects = [Signing req] \<and>
               createSignatureForRequest p req = ok r \<and>
               url_at h' (length h) = Some (request_url req) \<and>
               url_at h' a =
                 Some ((request_url req)\<lparr>searchParams :=
                    searchParams_set
                      (searchParams_set (searchParams (request_url req))
                         (js ''x-medoro-signature-input'') (signatureInput r))
                      (js ''x-medoro-signature'') (signature r)\<rparr>))"
    using assms
    by (auto simp: createSignedUrl_on_def Let_def url_at_def nth_append
        split: if_splits option.splits completion.splits sum.splits prod.splits)
  from t c s show ?thesis by blast
qed

lemma sample_store_run:
  "\<exists>h' req. createSignedUrl_on sample_client (sample_platform (Inl [])) sample_store 1 None =
             (h', [Signing req], Returns (ok (3, PUT)))"
  by (simp add: createSignedUrl_on_def command_at_def sample_store_def sample_defs
      small_policy_btoa Let_def)

theorem createSignedUrl_frame_witness:
  "\<exists>h' req. createSignedUrl_on sample_client (sample_platform (Inl [])) sample_store 1 None =
             (h', [Signing req], Returns (ok (3, PUT))) \<and>
           take 2 h' = sample_store \<and>
           command_at h' 1 =
             Some (PutObjectCommand (js ''/a.txt'') small_policy (Some (StringContent (js ''hello'')))) \<and>
           url_at h' 2 = Some (request_url req) \<and>
           searchParams_get (searchParams (request_url req)) (js ''x-medoro-signature'') = None"
proof -
  obtain h' req where r:
    "createSignedUrl_on sample_client (sample_platform (Inl [])) sample_store 1 None =
       (h', [Signing req], Returns (ok (3, PUT)))"
    using sample_store_run by blast
  have l: "length sample_store = 2"
    by (simp add: sample_store_def)
  have c: "command_at sample_store 1 =
      Some (PutObjectCommand (js ''/a.txt'') small_policy (Some (StringContent (js ''hello''))))"
    by (simp add: command_at_def sample_store_def)
  from createSignedUrl_frame [OF r] have
    f: "take 2 h' = sample_store" "command_at h' 1 = command_at sample_store 1"
      "url_at h' 2 = Some (request_url req)"
    by (auto simp: l)
  have "searchParams_get (searchParams (request_url req)) (js ''x-medoro-signature'') = None"
    using r
    by (auto simp: createSignedUrl_on_def command_at_def sample_store_def sample_defs
        small_policy_btoa searchParams_get_def js_def Let_def)
  with r f c show ?thesis by auto
qed

subsection \<open>Commands\<close>

lemma send_on_prefix:
  assumes "send_on this p h c = (h', effects, outcome)"
  shows "take (length h) h' = h"
proof (cases "command_at h c")
  case None
  with assms show ?thesis by (simp add: send_on_def)
next
  case (Some command)
  obtain h1 e1 o1 where r: "createSignedUrl_on this p h c None = (h1, e1, o1)"
    by (cases "createSignedUrl_on this p h c None")
  with Some assms have "h' = h1" by (simp add: send_on_def)
  with createSignedUrl_on_prefix [OF r] show ?thesis by simp
qed

lemma client_step_prefix: "client_step h h' \<Longrightarrow> take (length h) h' = h"
  by (induction rule: client_step.induct) (auto intro: createSignedUrl_on_prefix send_on_prefix)

lemma client_step_command_at:
  assumes "client_step h h'" and "command_at h c = Some command"
  shows "command_at h' c = Some command"
  using client_step_prefix [OF assms(1)] assms(2) by (rule prefix_command_at)

lemma command_at_update:
  assumes "command_at h c = Some command"
  shows "command_at (h[c' := CommandObject command']) c =
         Some (if c = c' then command' else command)"
  using assms by (auto simp: command_at_def split: if_splits)

text \<open>What no step changes: the class of a command, its method and its key.\<close>

lemma with_headers_same:
  "method_of_class (with_headers command hs) = method_of_class command"
  "method (base (with_headers command hs)) = method (base command)"
  "key (base (with_headers command hs)) = key (base command)"
  "headers (base (with_headers command hs)) = hs"
  by (cases command; simp)+

lemma caller_step_command_at:
  assumes "caller_step h h'" and "command_at h c = Some command"
  shows "\<exists>command'. command_at h' c = Some command' \<and>
           method_of_class command' = method_of_class command \<and>
           method (base command') = method (base command) \<and>
           key (base command') = key (base command)"
  using assms
proof (induction rule: caller_step.induct)
  case (construct command0 h)
  have "command_at (h @ [CommandObject command0]) c = Some command"
    using construct.prems by (rule prefix_command_at [rotated]) simp
  then show ?case by simp
next
  case (headers_set h c0 command0 n v)
  from command_at_update [OF headers_set.prems, of c0] headers_set.hyps headers_set.prems
  show ?case by (auto simp: with_headers_same)
next
  case (headers_delete h c0 command0 n)
  from command_at_update [OF headers_delete.prems, of c0] headers_delete.hyps headers_delete.prems
  show ?case by (auto simp: with_headers_same)
next
  case (written h c0 b pol cnt pol' cnt')
  from command_at_update [OF written.prems, of c0] written.hyps written.prems
  show ?case by auto
next
  case (url_written h a u u')
  then have "a \<noteq> c"
    by (auto simp: command_at_def url_at_def split: if_splits object.splits)
  with url_written.prems have "command_at (h[a := URLObject u']) c = Some command"
    by (auto simp: command_at_def split: if_splits)
  then show ?case by simp
qed

lemma evolves_command_at:
  assumes "evolves h h'" and "command_at h c = Some command"
  shows "\<exists>command'. command_at h' c = Some command' \<and>
           method_of_class command' = method_of_class command \<and>
           method (base command') = method (base command) \<and>
           key (base command') = key (base command)"
  using assms
proof (induction rule: evolves.induct)
  case (start h)
  then show ?case by simp
next
  case (client h h1 h2)
  then obtain command1 where c1: "command_at h1 c = Some command1"
    "method_of_class command1 = method_of_class command"
    "method (base command1) = method (base command)"
    "key (base command1) = key (base command)"
    by blast
  from client_step_command_at [OF client.hyps(2) c1(1)] c1 show ?case by simp
next
  case (caller h h1 h2)
  then obtain command1 where c1: "command_at h1 c = Some command1"
    "method_of_class command1 = method_of_class command"
    "method (base command1) = method (base command)"
    "key (base command1) = key (base command)"
    by blast
  from caller_step_command_at [OF caller.hyps(2) c1(1)] c1 show ?case by auto
qed

lemma client_steps_command_at:
  assumes "client_step\<^sup>*\<^sup>* h h'" and "command_at h c = Some command"
  shows "command_at h' c = Some command"
  using assms by (induction rule: rtranclp_induct) (auto intro: client_step_command_at)

lemma constructible_fields:
  assumes "constructible command"
  shows "method (base command) = method_of_class command" and "headers (base command) = []"
  using assms
  by (cases rule: constructible.cases;
      simp add: PutObjectCommand_def GetObjectCommand_def DeleteObjectCommand_def
        new_MedoroDataplaneCommand_def)+

text \<open>
  C10, as stated, fails in its last part.  A \<open>GetObjectCommand\<close> is constructed, and the
  caller calls \<open>command.headers.set('x-trace', '1')\<close> on the \<open>Headers\<close> object that the
  getter returns: the command at the same reference then carries a header map that is
  not empty.
\<close>

theorem command_method_fixed_counterexample:
  "constructible (GetObjectCommand (js ''/a.txt'')) \<and>
   command_at [CommandObject (GetObjectCommand (js ''/a.txt''))] 0 =
     Some (GetObjectCommand (js ''/a.txt'')) \<and>
   headers (base (GetObjectCommand (js ''/a.txt''))) = [] \<and>
   evolves [CommandObject (GetObjectCommand (js ''/a.txt''))]
     [CommandObject (Get \<lparr>method = GET, key = js ''/a.txt'',
                            headers = [(js ''x-trace'', js ''1'')]\<rparr>)] \<and>
   command_at [CommandObject (Get \<lparr>method = GET, key = js ''/a.txt'',
                                     headers = [(js ''x-trace'', js ''1'')]\<rparr>)] 0 =
     Some (Get \<lparr>method = GET, key = js ''/a.txt'', headers = [(js ''x-trace'', js ''1'')]\<rparr>) \<and>
   headers (base (Get \<lparr>method = GET, key = js ''/a.txt'',
                        headers = [(js ''x-trace'', js ''1'')]\<rparr>)) \<noteq> []"
proof -
  let ?c = "GetObjectCommand (js ''/a.txt'')"
  have a: "command_at [CommandObject ?c] 0 = Some ?c"
    by (simp add: command_at_def)
  have "caller_step [CommandObject ?c]
          ([CommandObject ?c][0 := CommandObject
             (with_headers ?c (Headers_set (headers (base ?c)) (js ''x-trace'') (js ''1'')))])"
    using a by (rule caller_step.headers_set)
  then have "caller_step [CommandObject ?c]
          [CommandObject (Get \<lparr>method = GET, key = js ''/a.txt'',
                                 headers = [(js ''x-trace'', js ''1'')]\<rparr>)]"
    by (simp add: GetObjectCommand_def new_MedoroDataplaneCommand_def)
  with evolves.start have e: "evolves [CommandObject ?c]
          [CommandObject (Get \<lparr>method = GET, key = js ''/a.txt'',
                                 headers = [(js ''x-trace'', js ''1'')]\<rparr>)]"
    by (rule evolves.caller)
  have h: "headers (base ?c) = []"
    by (simp add: GetObjectCommand_def new_MedoroDataplaneCommand_def)
  from constructible.get a h e show ?thesis
    by (simp add: command_at_def)
qed

text \<open>
  C10, amended.  A command built by one of the three exported constructors (they read the
  key, and for \<open>PutObjectCommand\<close> the policy and the content, of their argument and
  nothing else) has the HTTP method of its class: \<open>PUT\<close> for \<open>PutObjectCommand\<close>, \<open>GET\<close>
  for \<open>GetObjectCommand\<close>, \<open>DELETE\<close> for \<open>DeleteObjectCommand\<close>.  It starts with an empty
  header map, as does every result of the base constructor called without headers.  For
  its whole lifetime, whatever the client and the caller do, its reference holds a
  command of the same class with the same key and with the method of that class.  The
  header map stays empty as long as only the client acts (calls of \<open>createSignedUrl\<close> and
  \<open>send\<close>, which leave the command as it is); the caller can add headers to it.
\<close>

theorem command_method_fixed:
  assumes "constructible command"
  shows "method (base command) = method_of_class command \<and>
         headers (base command) = [] \<and>
         headers (new_MedoroDataplaneCommand m None k) = [] \<and>
         (\<forall>h h' c. command_at h c = Some command \<and> evolves h h' \<longrightarrow>
            (\<exists>command'. command_at h' c = Some command' \<and>
               method_of_class command' = method_of_class command \<and>
               method (base command') = method_of_class command' \<and>
               key (base command') = key (base command))) \<and>
         (\<forall>h h' c. command_at h c = Some command \<and> client_step\<^sup>*\<^sup>* h h' \<longrightarrow>
            (\<exists>command'. command_at h' c = Some command' \<and> headers (base command') = []))"
proof (intro conjI allI impI)
  show "method (base command) = method_of_class command"
    using assms by (rule constructible_fields(1))
  show "headers (base command) = []"
    using assms by (rule constructible_fields(2))
  show "headers (new_MedoroDataplaneCommand m None k) = []"
    by (simp add: new_MedoroDataplaneCommand_def)
next
  fix h h' c
  assume "command_at h c = Some command \<and> evolves h h'"
  then obtain command' where "command_at h' c = Some command'"
    "method_of_class command' = method_of_class command"
    "method (base command') = method (base command)"
    "key (base command') = key (base command)"
    using evolves_command_at by blast
  with constructible_fields(1) [OF assms]
  show "\<exists>command'. command_at h' c = Some command' \<and>
               method_of_class command' = method_of_class command \<and>
               method (base command') = method_of_class command' \<and>
               key (base command') = key (base command)"
    by simp
next
  fix h h' c
  assume "command_at h c = Some command \<and> client_step\<^sup>*\<^sup>* h h'"
  then have "command_at h' c = Some command"
    using client_steps_command_at by blast
  with constructible_fields(2) [OF assms]
  show "\<exists>command'. command_at h' c = Some command' \<and> headers (base command') = []"
    by simp
qed

theorem command_method_fixed_witness:
  "constructible (PutObjectCommand (js ''/a.txt'') small_policy (Some (StringContent (js ''hello'')))) \<and>
   method (base (PutObjectCommand (js ''/a.txt'') small_policy (Some (StringContent (js ''hello''))))) = PUT \<and>
   headers (base (PutObjectCommand (js ''/a.txt'') small_policy (Some (StringContent (js ''hello''))))) = [] \<and>
   command_at sample_store 1 =
     Some (PutObjectCommand (js ''/a.txt'') small_policy (Some (StringContent (js ''hello'')))) \<and>
   (\<exists>h1 h2. client_step sample_store h1 \<and>
      caller_step h1 h2 \<and>
      command_at h1 1 =
        Some (PutObjectCommand (js ''/a.txt'') small_policy (Some (StringContent (js ''hello'')))) \<and>
      command_at h2 1 =
        Some (Put \<lparr>method = PUT, key = js ''/a.txt'', headers = [(js ''x-trace'', js ''1'')]\<rparr>
                small_policy (Some (StringContent (js ''hello'')))))"
proof -
  let ?c = "PutObjectCommand (js ''/a.txt'') small_policy (Some (StringContent (js ''hello'')))"
  let ?c' = "Put \<lparr>method = PUT, key = js ''/a.txt'', headers = [(js ''x-trace'', js ''1'')]\<rparr>
                small_policy (Some (StringContent (js ''hello'')))"
  have h: "constructible ?c"
    by (rule constructible.put)
  have a: "command_at sample_store 1 = Some ?c"
    by (simp add: command_at_def sample_store_def)
  obtain h1 req where r:
    "createSignedUrl_on sample_client (sample_platform (Inl [])) sample_store 1 None =
       (h1, [Signing req], Returns (ok (3, PUT)))"
    using sample_store_run by blast
  then have s1: "client_step sample_store h1"
    by (rule client_step.sign)
  then have e1: "client_step\<^sup>*\<^sup>* sample_store h1"
    by (rule r_into_rtranclp)
  from command_method_fixed [OF h] a e1
  obtain command1 where c1: "command_at h1 1 = Some command1" "headers (base command1) = []"
    by blast
  define h2 where
    "h2 = h1[1 := CommandObject
             (with_headers command1 (Headers_set (headers (base command1)) (js ''x-trace'') (js ''1'')))]"
  have s2: "caller_step h1 h2"
    unfolding h2_def using c1(1) by (rule caller_step.headers_set)
  have e2: "evolves sample_store h2"
    by (rule evolves.caller [OF evolves.client [OF evolves.start s1] s2])
  from command_method_fixed [OF h] a e2
  obtain command2 where c2: "command_at h2 1 = Some command2"
    "method_of_class command2 = method_of_class ?c"
    "method (base command2) = method_of_class command2"
    "key (base command2) = key (base ?c)"
    by blast
  have k1: "command1 = ?c"
    using client_step_command_at [OF s1 a] c1(1) by simp
  have "command_at h2 1 = Some (with_headers ?c [(js ''x-trace'', js ''1'')])"
    using command_at_update [OF c1(1), of 1] c1(2) by (simp add: h2_def k1)
  then have k2: "command_at h2 1 = Some ?c'"
    by (simp add: PutObjectCommand_def new_MedoroDataplaneCommand_def)
  from command_method_fixed [OF h] have
    "method (base ?c) = PUT" "headers (base ?c) = []"
    by (simp_all add: PutObjectCommand_def)
  with h a s1 s2 c1(1) k1 k2 show ?thesis
    by blast
qed


end
